theory Spec2Isabelle
  imports Complex_Main "HOL-Library.Word"
begin

unbundle bit_operations_syntax

section \<open>The Joy-Con driver of pycon/joycon.py\<close>

text \<open>
  A shallow embedding of the class \<open>JoyCon\<close>. Python integers are \<open>int\<close>; the elements
  of a \<open>bytes\<close> object are \<open>8 word\<close> (Python guarantees 0..255) and enter integer
  arithmetic through \<open>uint\<close>; a Python float is the \<open>real\<close> it denotes (rounding is not
  modelled, overflow and underflow are). Exceptions are values of \<open>error\<close>.
\<close>

subsection \<open>Values, errors and Python primitives\<close>

type_synonym byte = "8 word"

datatype error =
    AssertionError
  | OSError
  | IndexError
  | OverflowError
  | ZeroDivisionError
  | ValueError
  | TypeError

text \<open>\<open>xs[i]\<close> on a Python sequence: a negative index counts from the end, an index
  outside \<open>[-len, len)\<close> raises IndexError.\<close>

definition py_index :: "'a list \<Rightarrow> int \<Rightarrow> error + 'a" where
  "py_index xs i =
     (let n = int (length xs) in
      if 0 \<le> i \<and> i < n then Inr (xs ! nat i)
      else if - n \<le> i \<and> i < 0 then Inr (xs ! nat (i + n))
      else Inl IndexError)"

text \<open>\<open>xs[i:j]\<close> for constant bounds \<open>0 \<le> i \<le> j\<close>: never raises, a short sequence
  gives a short slice.\<close>

definition py_slice :: "nat \<Rightarrow> nat \<Rightarrow> 'a list \<Rightarrow> 'a list" where
  "py_slice i j xs = take (j - i) (drop i xs)"

subsection \<open>Decoding helpers\<close>

text \<open>\<open>_to_int16le_from_2bytes(hbytebe, lbytebe)\<close>: despite its name the first parameter
  is the low byte, the second is shifted up by 8.\<close>

definition to_int16le_from_2bytes :: "int \<Rightarrow> int \<Rightarrow> int" where
  "to_int16le_from_2bytes hbytebe lbytebe =
     (let uint16le = push_bit 8 lbytebe OR hbytebe in
      if uint16le < 32768 then uint16le else uint16le - 65536)"

text \<open>The claim's side of the round trip: the two bytes of the 16-bit two's-complement
  little-endian encoding of \<open>v\<close> (what \<open>v.to_bytes(2, 'little', signed=True)\<close> holds),
  low byte first.\<close>

definition encode_int16le :: "int \<Rightarrow> int \<times> int" where
  "encode_int16le v = (v mod 256, (v div 256) mod 256)"

subsection \<open>The driver object\<close>

text \<open>Modelled from the spec: the identifier table \<open>pycon/constants.py\<close>
  (\<open>JOYCON_L_PRODUCT_ID\<close>, \<open>JOYCON_R_PRODUCT_ID\<close>, \<open>JOYCON_PRODUCT_IDS\<close>) is not among
  the sources. The spec describes the product id as "one of a left/right/pro variant
  enumeration"; the numeric values play no role in the driver, only equality does.\<close>

datatype product = JOYCON_L_PRODUCT_ID | JOYCON_R_PRODUCT_ID | PRO_PRODUCT_ID

text \<open>The HID device handle, seen from the driver: the results its successive \<open>read\<close>
  calls will deliver (a report of any length, or a failing read), and the frames
  written so far. When \<open>pending\<close> is exhausted the next read blocks for ever. Writes
  are recorded and succeed.\<close>

datatype read_event = Report "byte list" | ReadFails

record hid_device =
  pending :: "read_event list"
  written :: "byte list list"

text \<open>Callbacks are opaque observers named by a number. Calling one, and assigning
  \<open>_input_report\<close> in the polling loop, is recorded in \<open>observed\<close> (which is not an
  attribute of the class).\<close>

type_synonym hook = nat

datatype observation = Published "byte list" | Dispatched hook "byte list"

record joycon =
  product_id :: product
  input_hooks :: "hook list"
  input_report :: "byte list"
  packet_number :: int
  joycon_device :: "hid_device option"
  stick_cal :: "int list"
  deadzone :: int
  ACCEL_OFFSET_X :: int
  ACCEL_OFFSET_Y :: int
  ACCEL_OFFSET_Z :: int
  ACCEL_COEFF_X :: real
  ACCEL_COEFF_Y :: real
  ACCEL_COEFF_Z :: real
  observed :: "observation list"

definition INPUT_REPORT_SIZE :: nat where
  "INPUT_REPORT_SIZE = 49"

definition RUMBLE_DATA :: "byte list" where
  "RUMBLE_DATA = [0x00, 0x01, 0x40, 0x40, 0x00, 0x01, 0x40, 0x40]"

text \<open>\<open>bytes(self._INPUT_REPORT_SIZE)\<close>, the report installed by \<open>__init__\<close>.\<close>

definition initial_input_report :: "byte list" where
  "initial_input_report = replicate INPUT_REPORT_SIZE 0"

definition is_left :: "joycon \<Rightarrow> bool" where
  "is_left s = (product_id s = JOYCON_L_PRODUCT_ID)"

definition is_right :: "joycon \<Rightarrow> bool" where
  "is_right s = (product_id s = JOYCON_R_PRODUCT_ID)"

text \<open>The attributes as \<open>__init__\<close> has set them when it is about to connect: no hooks,
  the all-zero report, packet number 0 and the default accelerometer calibration
  (offsets 0, coefficients 4.0). The attributes assigned later (\<open>stick_cal\<close>, \<open>deadzone\<close>,
  the device) hold an empty list, 0 and no device.\<close>

definition unconnected_joycon :: "product \<Rightarrow> joycon" where
  "unconnected_joycon p =
     \<lparr>product_id = p, input_hooks = [], input_report = initial_input_report,
      packet_number = 0, joycon_device = None, stick_cal = [], deadzone = 0,
      ACCEL_OFFSET_X = 0, ACCEL_OFFSET_Y = 0, ACCEL_OFFSET_Z = 0,
      ACCEL_COEFF_X = 4, ACCEL_COEFF_Y = 4, ACCEL_COEFF_Z = 4, observed = []\<rparr>"

subsection \<open>Bit fields of the current report\<close>

text \<open>\<open>_get_nbit_from_input_report\<close>. A negative shift count raises ValueError.\<close>

definition get_nbit_from_input_report :: "joycon \<Rightarrow> int \<Rightarrow> int \<Rightarrow> int \<Rightarrow> error + int" where
  "get_nbit_from_input_report s offset_byte offset_bit nbit =
     (case py_index (input_report s) offset_byte of
        Inl e \<Rightarrow> Inl e
      | Inr byte \<Rightarrow>
          if offset_bit < 0 then Inl ValueError
          else if nbit < 0 then Inl ValueError
          else Inr (drop_bit (nat offset_bit) (uint byte) AND (push_bit (nat nbit) 1 - 1)))"

definition get_battery_charging :: "joycon \<Rightarrow> error + int" where
  "get_battery_charging s = get_nbit_from_input_report s 2 4 1"

definition get_battery_level :: "joycon \<Rightarrow> error + int" where
  "get_battery_level s = get_nbit_from_input_report s 2 5 3"

definition get_button_y :: "joycon \<Rightarrow> error + int" where
  "get_button_y s = get_nbit_from_input_report s 3 0 1"

definition get_button_x :: "joycon \<Rightarrow> error + int" where
  "get_button_x s = get_nbit_from_input_report s 3 1 1"

definition get_button_b :: "joycon \<Rightarrow> error + int" where
  "get_button_b s = get_nbit_from_input_report s 3 2 1"

definition get_button_a :: "joycon \<Rightarrow> error + int" where
  "get_button_a s = get_nbit_from_input_report s 3 3 1"

definition get_button_right_sr :: "joycon \<Rightarrow> error + int" where
  "get_button_right_sr s = get_nbit_from_input_report s 3 4 1"

definition get_button_right_sl :: "joycon \<Rightarrow> error + int" where
  "get_button_right_sl s = get_nbit_from_input_report s 3 5 1"

definition get_button_r :: "joycon \<Rightarrow> error + int" where
  "get_button_r s = get_nbit_from_input_report s 3 6 1"

definition get_button_zr :: "joycon \<Rightarrow> error + int" where
  "get_button_zr s = get_nbit_from_input_report s 3 7 1"

definition get_button_minus :: "joycon \<Rightarrow> error + int" where
  "get_button_minus s = get_nbit_from_input_report s 4 0 1"

definition get_button_plus :: "joycon \<Rightarrow> error + int" where
  "get_button_plus s = get_nbit_from_input_report s 4 1 1"

definition get_button_r_stick :: "joycon \<Rightarrow> error + int" where
  "get_button_r_stick s = get_nbit_from_input_report s 4 2 1"

definition get_button_l_stick :: "joycon \<Rightarrow> error + int" where
  "get_button_l_stick s = get_nbit_from_input_report s 4 3 1"

definition get_button_home :: "joycon \<Rightarrow> error + int" where
  "get_button_home s = get_nbit_from_input_report s 4 4 1"

definition get_button_capture :: "joycon \<Rightarrow> error + int" where
  "get_button_capture s = get_nbit_from_input_report s 4 5 1"

definition get_button_charging_grip :: "joycon \<Rightarrow> error + int" where
  "get_button_charging_grip s = get_nbit_from_input_report s 4 7 1"

definition get_button_down :: "joycon \<Rightarrow> error + int" where
  "get_button_down s = get_nbit_from_input_report s 5 0 1"

definition get_button_up :: "joycon \<Rightarrow> error + int" where
  "get_button_up s = get_nbit_from_input_report s 5 1 1"

definition get_button_right :: "joycon \<Rightarrow> error + int" where
  "get_button_right s = get_nbit_from_input_report s 5 2 1"

definition get_button_left :: "joycon \<Rightarrow> error + int" where
  "get_button_left s = get_nbit_from_input_report s 5 3 1"

definition get_button_left_sr :: "joycon \<Rightarrow> error + int" where
  "get_button_left_sr s = get_nbit_from_input_report s 5 4 1"

definition get_button_left_sl :: "joycon \<Rightarrow> error + int" where
  "get_button_left_sl s = get_nbit_from_input_report s 5 5 1"

definition get_button_l :: "joycon \<Rightarrow> error + int" where
  "get_button_l s = get_nbit_from_input_report s 5 6 1"

definition get_button_zl :: "joycon \<Rightarrow> error + int" where
  "get_button_zl s = get_nbit_from_input_report s 5 7 1"

text \<open>The values of the three button groups of \<open>get_status\<close>, in the order of its
  dictionary: right, shared, left.\<close>

definition get_status_buttons :: "joycon \<Rightarrow> (error + int) list" where
  "get_status_buttons s =
     [get_button_y s, get_button_x s, get_button_b s, get_button_a s,
      get_button_right_sr s, get_button_right_sl s, get_button_r s, get_button_zr s,
      get_button_minus s, get_button_plus s, get_button_r_stick s, get_button_l_stick s,
      get_button_home s, get_button_capture s, get_button_charging_grip s,
      get_button_down s, get_button_up s, get_button_right s, get_button_left s,
      get_button_left_sr s, get_button_left_sl s, get_button_l s, get_button_zl s]"

subsection \<open>Calibration arithmetic\<close>

text \<open>A method that changes the object returns its outcome together with the object as
  it is left, also when it raises. \<open>Blocks\<close> is a read that never returns.\<close>

datatype 'a outcome = Returns 'a | Raises error | Blocks

text \<open>The truth value Python gives to \<open>None\<close> and to a tuple, list or bytes object.\<close>

definition py_truthy :: "'a list option \<Rightarrow> bool" where
  "py_truthy a = (case a of None \<Rightarrow> False | Some xs \<Rightarrow> xs \<noteq> [])"

text \<open>A float is modelled by the real number it denotes: rounding to the nearest float
  is left out, the two ways a float result leaves the reals are not. A result that
  rounds to \<open>2^1024\<close> or beyond, that is one of magnitude at least \<open>2^1024 - 2^970\<close>, does
  not exist as a float; a quotient of magnitude at most \<open>2^-1075\<close> rounds to \<open>0.0\<close>.\<close>

definition float_overflow :: real where
  "float_overflow = 2 ^ 1024 - 2 ^ 970"

definition float_underflow :: real where
  "float_underflow = 1 / 2 ^ 1075"

text \<open>The conversion of an int operand to a float: "OverflowError: int too large to
  convert to float".\<close>

definition float_of_int :: "int \<Rightarrow> error + real" where
  "float_of_int k =
     (if float_overflow \<le> \<bar>real_of_int k\<bar> then Inl OverflowError else Inr (real_of_int k))"

text \<open>\<open>1.0 / k\<close> for an int \<open>k\<close>: the int is converted, then the float division raises
  on a zero divisor. The quotient of 1.0 by a non-zero integer value is at most 1 and
  at least \<open>2^-1024\<close> in magnitude, so it neither overflows nor vanishes.\<close>

definition one_over :: "int \<Rightarrow> error + real" where
  "one_over k =
     (case float_of_int k of
        Inl e \<Rightarrow> Inl e
      | Inr y \<Rightarrow> if y = 0 then Inl ZeroDivisionError else Inr (1 / y))"

text \<open>\<open>a / b\<close> for two ints, Python's true division: ZeroDivisionError for \<open>b = 0\<close>,
  otherwise the float nearest to the exact quotient, "OverflowError: integer division
  result too large for a float" when there is none, and \<open>0.0\<close> for a quotient too small.\<close>

definition int_truediv :: "int \<Rightarrow> int \<Rightarrow> error + real" where
  "int_truediv a b =
     (if b = 0 then Inl ZeroDivisionError
      else
        let q = real_of_int a / real_of_int b in
        if float_overflow \<le> \<bar>q\<bar> then Inl OverflowError
        else if \<bar>q\<bar> \<le> float_underflow then Inr 0
        else Inr q)"

text \<open>\<open>set_accel_calibration\<close>. Unpacking a tuple that does not have three elements raises
  ValueError before anything is assigned; the three coefficients are computed and
  stored one after the other.\<close>

definition set_accel_calibration ::
    "joycon \<Rightarrow> int list option \<Rightarrow> int list option \<Rightarrow> unit outcome \<times> joycon" where
  "set_accel_calibration s offset_xyz coeff_xyz =
     (if py_truthy offset_xyz \<and> py_truthy coeff_xyz then
        (case offset_xyz of
           Some [ox, oy, oz] \<Rightarrow>
             let s1 = s\<lparr>ACCEL_OFFSET_X := ox, ACCEL_OFFSET_Y := oy, ACCEL_OFFSET_Z := oz\<rparr> in
             (case coeff_xyz of
                Some [cx, cy, cz] \<Rightarrow>
                  (case one_over (cx - ACCEL_OFFSET_X s1) of
                     Inl e \<Rightarrow> (Raises e, s1)
                   | Inr qx \<Rightarrow>
                       let s2 = s1\<lparr>ACCEL_COEFF_X := qx * 4\<rparr> in
                       (case one_over (cy - ACCEL_OFFSET_Y s2) of
                          Inl e \<Rightarrow> (Raises e, s2)
                        | Inr qy \<Rightarrow>
                            let s3 = s2\<lparr>ACCEL_COEFF_Y := qy * 4\<rparr> in
                            (case one_over (cz - ACCEL_OFFSET_Z s3) of
                               Inl e \<Rightarrow> (Raises e, s3)
                             | Inr qz \<Rightarrow> (Returns (), s3\<lparr>ACCEL_COEFF_Z := qz * 4\<rparr>))))
              | _ \<Rightarrow> (Raises ValueError, s1))
         | _ \<Rightarrow> (Raises ValueError, s))
      else (Returns (), s))"

text \<open>\<open>self.set_accel_calibration((0, 0, 0), (1, 1, 1))\<close> of \<open>__init__\<close>.\<close>

definition init_accel_calibration :: "joycon \<Rightarrow> unit outcome \<times> joycon" where
  "init_accel_calibration s = set_accel_calibration s (Some [0, 0, 0]) (Some [1, 1, 1])"

text \<open>\<open>get_actual_stick_value\<close>; the result \<open>0\<close> of the dead zone is the integer 0.\<close>

definition get_actual_stick_value :: "joycon \<Rightarrow> int \<Rightarrow> int \<Rightarrow> error + real" where
  "get_actual_stick_value s pre_cal orientation =
     (case py_index (stick_cal s) (2 + orientation) of
        Inl e \<Rightarrow> Inl e
      | Inr center \<Rightarrow>
          let diff = pre_cal - center in
          if \<bar>diff\<bar> < deadzone s then Inr 0
          else if diff > 0 then
            (case py_index (stick_cal s) orientation of
               Inl e \<Rightarrow> Inl e
             | Inr d \<Rightarrow> int_truediv diff d)
          else
            (case py_index (stick_cal s) (4 + orientation) of
               Inl e \<Rightarrow> Inl e
             | Inr d \<Rightarrow> int_truediv diff d))"

subsection \<open>Accelerometer samples\<close>

text \<open>\<open>if not input_report: input_report = self._input_report\<close>.\<close>

definition report_or_current :: "joycon \<Rightarrow> byte list option \<Rightarrow> byte list" where
  "report_or_current s input_report_arg =
     (case input_report_arg of
        None \<Rightarrow> input_report s
      | Some r \<Rightarrow> if r = [] then input_report s else r)"

text \<open>The two bytes at \<open>i\<close> and \<open>i + 1\<close> handed to \<open>_to_int16le_from_2bytes\<close>.\<close>

definition int16_at :: "byte list \<Rightarrow> int \<Rightarrow> error + int" where
  "int16_at rep i =
     (case py_index rep i of
        Inl e \<Rightarrow> Inl e
      | Inr b0 \<Rightarrow>
          (case py_index rep (i + 1) of
             Inl e \<Rightarrow> Inl e
           | Inr b1 \<Rightarrow> Inr (to_int16le_from_2bytes (uint b0) (uint b1))))"

definition get_accel_x :: "joycon \<Rightarrow> byte list option \<Rightarrow> int \<Rightarrow> error + real" where
  "get_accel_x s input_report_arg sample_idx =
     (let rep = report_or_current s input_report_arg in
      if sample_idx \<notin> {0, 1, 2} then Inl IndexError
      else case int16_at rep (13 + sample_idx * 12) of
             Inl e \<Rightarrow> Inl e
           | Inr data \<Rightarrow> Inr (real_of_int data * ACCEL_COEFF_X s))"

definition get_accel_y :: "joycon \<Rightarrow> byte list option \<Rightarrow> int \<Rightarrow> error + real" where
  "get_accel_y s input_report_arg sample_idx =
     (let rep = report_or_current s input_report_arg in
      if sample_idx \<notin> {0, 1, 2} then Inl IndexError
      else case int16_at rep (15 + sample_idx * 12) of
             Inl e \<Rightarrow> Inl e
           | Inr data \<Rightarrow>
               Inr (real_of_int data * ACCEL_COEFF_Y s * (if is_left s then 1 else - 1)))"

definition get_accel_z :: "joycon \<Rightarrow> byte list option \<Rightarrow> int \<Rightarrow> error + real" where
  "get_accel_z s input_report_arg sample_idx =
     (let rep = report_or_current s input_report_arg in
      if sample_idx \<notin> {0, 1, 2} then Inl IndexError
      else case int16_at rep (17 + sample_idx * 12) of
             Inl e \<Rightarrow> Inl e
           | Inr data \<Rightarrow>
               Inr (real_of_int data * ACCEL_COEFF_Z s * (if is_left s then 1 else - 1)))"

subsection \<open>Talking to the device\<close>

text \<open>\<open>x.to_bytes(n, "little")\<close>: OverflowError for a negative \<open>x\<close> and for one that does
  not fit in \<open>n\<close> bytes.\<close>

fun le_bytes :: "nat \<Rightarrow> int \<Rightarrow> byte list" where
  "le_bytes 0 x = []"
| "le_bytes (Suc n) x = word_of_int x # le_bytes n (x div 256)"

definition to_bytes_little :: "int \<Rightarrow> nat \<Rightarrow> error + byte list" where
  "to_bytes_little x n =
     (if x < 0 \<or> 256 ^ n \<le> x then Inl OverflowError else Inr (le_bytes n x))"

text \<open>\<open>_write_output_report\<close>: nothing happens without a device.\<close>

definition write_output_report ::
    "joycon \<Rightarrow> byte list \<Rightarrow> byte list \<Rightarrow> byte list \<Rightarrow> unit outcome \<times> joycon" where
  "write_output_report s command subcommand argument =
     (case joycon_device s of
        None \<Rightarrow> (Returns (), s)
      | Some d \<Rightarrow>
          (case to_bytes_little (packet_number s) 1 of
             Inl e \<Rightarrow> (Raises e, s)
           | Inr pn \<Rightarrow>
               (Returns (),
                s\<lparr>joycon_device :=
                    Some (d\<lparr>written :=
                      written d @ [command @ pn @ RUMBLE_DATA @ subcommand @ argument]\<rparr>),
                  packet_number := (packet_number s + 1) AND 0xF\<rparr>)))"

text \<open>\<open>_read_input_report\<close>: \<open>None\<close> without a device, otherwise the next result of the
  device's \<open>read\<close>.\<close>

definition read_input_report :: "joycon \<Rightarrow> byte list option outcome \<times> joycon" where
  "read_input_report s =
     (case joycon_device s of
        None \<Rightarrow> (Returns None, s)
      | Some d \<Rightarrow>
          (case pending d of
             [] \<Rightarrow> (Blocks, s)
           | ReadFails # es \<Rightarrow> (Raises OSError, s\<lparr>joycon_device := Some (d\<lparr>pending := es\<rparr>)\<rparr>)
           | Report r # es \<Rightarrow>
               (Returns (Some r), s\<lparr>joycon_device := Some (d\<lparr>pending := es\<rparr>)\<rparr>)))"

text \<open>The number of read results the device still holds: what the loops consume.\<close>

definition pending_count :: "joycon \<Rightarrow> nat" where
  "pending_count s = (case joycon_device s of None \<Rightarrow> 0 | Some d \<Rightarrow> length (pending d))"

text \<open>The loop both readers are written with,
  \<open>report = self._read_input_report(); while report[0] != TAG: report = self._read_input_report()\<close>.
  Indexing \<open>None\<close> raises TypeError, indexing an empty report IndexError.\<close>

function read_until_tag :: "joycon \<Rightarrow> byte \<Rightarrow> byte list outcome \<times> joycon" where
  "read_until_tag s tag =
     (case read_input_report s of
        (Returns None, s') \<Rightarrow> (Raises TypeError, s')
      | (Returns (Some report), s') \<Rightarrow>
          (case py_index report 0 of
             Inl e \<Rightarrow> (Raises e, s')
           | Inr b \<Rightarrow> if b \<noteq> tag then read_until_tag s' tag else (Returns report, s'))
      | (Raises e, s') \<Rightarrow> (Raises e, s')
      | (Blocks, s') \<Rightarrow> (Blocks, s'))"
  by pat_completeness auto
termination
proof (relation "measure (\<lambda>(s, tag). pending_count s)")
  show "wf (measure (\<lambda>(s, tag). pending_count s))"
    by simp
next
  fix s :: joycon and tag :: byte and x s' x1 report b
  assume "(x, s') = read_input_report s" and "x = Returns x1" and "x1 = Some report"
  then have "read_input_report s = (Returns (Some report), s')"
    by simp
  then have "pending_count s' < pending_count s"
    by (auto simp: read_input_report_def pending_count_def
        split: option.splits list.splits read_event.splits)
  then show "((s', tag), (s, tag)) \<in> measure (\<lambda>(s, tag). pending_count s)"
    by simp
qed

declare read_until_tag.simps [simp del]

text \<open>\<open>_send_subcmd_get_response\<close>; the pair returned is \<open>(report[13] & 0x80, report[13:])\<close>.\<close>

definition send_subcmd_get_response ::
    "joycon \<Rightarrow> byte list \<Rightarrow> byte list \<Rightarrow> (int \<times> byte list) outcome \<times> joycon" where
  "send_subcmd_get_response s subcommand argument =
     (case write_output_report s [0x01] subcommand argument of
        (Returns u, s1) \<Rightarrow>
          (case read_until_tag s1 0x21 of
             (Returns report, s2) \<Rightarrow>
               if \<not> (py_slice 1 2 report \<noteq> subcommand) then (Raises AssertionError, s2)
               else
                 (case py_index report 13 of
                    Inl e \<Rightarrow> (Raises e, s2)
                  | Inr b \<Rightarrow> (Returns (uint b AND 0x80, drop 13 report), s2))
           | (Raises e, s2) \<Rightarrow> (Raises e, s2)
           | (Blocks, s2) \<Rightarrow> (Blocks, s2))
      | (Raises e, s1) \<Rightarrow> (Raises e, s1)
      | (Blocks, s1) \<Rightarrow> (Blocks, s1))"

text \<open>\<open>_spi_flash_read\<close>. \<open>IOError\<close> is Python's alias of \<open>OSError\<close>.\<close>

definition spi_flash_read :: "joycon \<Rightarrow> int \<Rightarrow> int \<Rightarrow> byte list outcome \<times> joycon" where
  "spi_flash_read s address size' =
     (if \<not> size' \<le> 0x1d then (Raises AssertionError, s)
      else
        (case to_bytes_little address 4 of
           Inl e \<Rightarrow> (Raises e, s)
         | Inr address_bytes \<Rightarrow>
             (case to_bytes_little size' 1 of
                Inl e \<Rightarrow> (Raises e, s)
              | Inr size_bytes \<Rightarrow>
                  let argument = address_bytes @ size_bytes in
                  (case send_subcmd_get_response s [0x10] argument of
                     (Returns (ack, report), s1) \<Rightarrow>
                       if ack = 0 then (Raises OSError, s1)
                       else if py_slice 0 2 report \<noteq> [0x90, 0x10] then (Raises OSError, s1)
                       else if \<not> (py_slice 2 7 report = argument) then
                         (Raises AssertionError, s1)
                       else (Returns (py_slice 7 (nat size' + 7) report), s1)
                   | (Raises e, s1) \<Rightarrow> (Raises e, s1)
                   | (Blocks, s1) \<Rightarrow> (Blocks, s1)))))"

subsection \<open>Stick calibration\<close>

text \<open>The two packing expressions of the loader, on the bytes at two indices of the
  buffer: \<open>(buf[i] << 8) & 0xF00 | buf[j]\<close> and \<open>(buf[i] << 4) | (buf[j] >> 4)\<close>.\<close>

definition shift8_mask_or :: "byte list \<Rightarrow> int \<Rightarrow> int \<Rightarrow> error + int" where
  "shift8_mask_or buf i j =
     (case py_index buf i of
        Inl e \<Rightarrow> Inl e
      | Inr hi \<Rightarrow>
          (case py_index buf j of
             Inl e \<Rightarrow> Inl e
           | Inr lo \<Rightarrow> Inr ((push_bit 8 (uint hi) AND 0xF00) OR uint lo)))"

definition shift4_or_shift4 :: "byte list \<Rightarrow> int \<Rightarrow> int \<Rightarrow> error + int" where
  "shift4_or_shift4 buf i j =
     (case py_index buf i of
        Inl e \<Rightarrow> Inl e
      | Inr hi \<Rightarrow>
          (case py_index buf j of
             Inl e \<Rightarrow> Inl e
           | Inr lo \<Rightarrow> Inr (push_bit 4 (uint hi) OR drop_bit 4 (uint lo))))"

text \<open>One assignment \<open>self.stick_cal[i] = value\<close>, and running the next statement only
  when the previous one returned.\<close>

definition assign_stick_cal :: "joycon \<Rightarrow> nat \<Rightarrow> error + int \<Rightarrow> unit outcome \<times> joycon" where
  "assign_stick_cal s i v =
     (case v of
        Inl e \<Rightarrow> (Raises e, s)
      | Inr x \<Rightarrow> (Returns (), s\<lparr>stick_cal := (stick_cal s)[i := x]\<rparr>))"

definition and_then ::
    "unit outcome \<times> joycon \<Rightarrow> (joycon \<Rightarrow> unit outcome \<times> joycon) \<Rightarrow> unit outcome \<times> joycon" where
  "and_then r f =
     (case r of
        (Returns u, s) \<Rightarrow> f s
      | (Raises e, s) \<Rightarrow> (Raises e, s)
      | (Blocks, s) \<Rightarrow> (Blocks, s))"

text \<open>Lines 181 to 194 of \<open>_read_stick_calibration_data\<close>: the six assignments from the
  chosen buffer, in the order of the source.\<close>

definition store_stick_cal :: "joycon \<Rightarrow> byte list \<Rightarrow> unit outcome \<times> joycon" where
  "store_stick_cal s0 buf =
     (let s = s0\<lparr>stick_cal := replicate 6 0\<rparr> in
      and_then (assign_stick_cal s (if is_left s then 0 else 2) (shift8_mask_or buf 1 0)) (\<lambda>s.
      and_then (assign_stick_cal s (if is_left s then 1 else 3) (shift4_or_shift4 buf 2 1)) (\<lambda>s.
      and_then (assign_stick_cal s (if is_left s then 2 else 4) (shift8_mask_or buf 4 3)) (\<lambda>s.
      and_then (assign_stick_cal s (if is_left s then 3 else 5) (shift4_or_shift4 buf 5 4)) (\<lambda>s.
      and_then (assign_stick_cal s (if is_left s then 4 else 0) (shift8_mask_or buf 7 6)) (\<lambda>s.
      assign_stick_cal s (if is_left s then 5 else 1) (shift4_or_shift4 buf 8 7)))))))"

text \<open>The loop \<open>for b in buf: if b != 0xFF: use_user_data = True; break\<close>.\<close>

fun use_user_data :: "byte list \<Rightarrow> bool" where
  "use_user_data [] = False"
| "use_user_data (b # bs) = (if b \<noteq> 0xFF then True else use_user_data bs)"

definition read_stick_calibration_data :: "joycon \<Rightarrow> unit outcome \<times> joycon" where
  "read_stick_calibration_data s =
     (let user_stick_cal_addr = (if is_left s then 0x8012 else 0x801D) in
      case spi_flash_read s user_stick_cal_addr 9 of
        (Returns buf, s1) \<Rightarrow>
          if \<not> use_user_data buf then
            (let factory_stick_cal_addr = (if is_left s1 then 0x603D else 0x6046) in
             case spi_flash_read s1 factory_stick_cal_addr 9 of
               (Returns buf', s2) \<Rightarrow> store_stick_cal s2 buf'
             | (Raises e, s2) \<Rightarrow> (Raises e, s2)
             | (Blocks, s2) \<Rightarrow> (Blocks, s2))
          else store_stick_cal s1 buf
      | (Raises e, s1) \<Rightarrow> (Raises e, s1)
      | (Blocks, s1) \<Rightarrow> (Blocks, s1))"

text \<open>The spec's words for the packing, "byte0 + low-nibble(byte1) gives the first 12-bit
  value; high-nibble(byte1) + byte2 the second", written arithmetically. They are what
  the loader's two expressions are compared with.\<close>

definition first12 :: "byte \<Rightarrow> byte \<Rightarrow> int" where
  "first12 b0 b1 = uint b0 + 256 * (uint b1 mod 16)"

definition second12 :: "byte \<Rightarrow> byte \<Rightarrow> int" where
  "second12 b1 b2 = uint b1 div 16 + 16 * uint b2"

text \<open>The three (X, Y) pairs of a 9-byte calibration block, under the names the loader's
  comments and the spec give them: bytes 0 to 2 "max above center", bytes 3 to 5
  "center", bytes 6 to 8 "min below center".\<close>

definition max_above_center :: "byte list \<Rightarrow> int list" where
  "max_above_center buf = [first12 (buf ! 0) (buf ! 1), second12 (buf ! 1) (buf ! 2)]"

definition center_pair :: "byte list \<Rightarrow> int list" where
  "center_pair buf = [first12 (buf ! 3) (buf ! 4), second12 (buf ! 4) (buf ! 5)]"

definition min_below_center :: "byte list \<Rightarrow> int list" where
  "min_below_center buf = [first12 (buf ! 6) (buf ! 7), second12 (buf ! 7) (buf ! 8)]"

subsection \<open>The polling loop\<close>

text \<open>\<open>for callback in self._input_hooks: callback(self)\<close>; a callback sees the report
  just published.\<close>

definition dispatch_hooks :: "joycon \<Rightarrow> joycon" where
  "dispatch_hooks s =
     s\<lparr>observed := observed s @ map (\<lambda>h. Dispatched h (input_report s)) (input_hooks s)\<rparr>"

definition publish :: "joycon \<Rightarrow> byte list \<Rightarrow> joycon" where
  "publish s report = s\<lparr>input_report := report, observed := observed s @ [Published report]\<rparr>"

lemma read_until_tag_consumes:
  "read_until_tag s tag = (Returns report, s1) \<Longrightarrow> pending_count s1 < pending_count s"
proof (induction s tag rule: read_until_tag.induct)
  case (1 s tag)
  from "1.prems" obtain r s' where r: "read_input_report s = (Returns (Some r), s')"
    by (subst (asm) read_until_tag.simps) (auto split: prod.splits outcome.splits option.splits)
  then have less: "pending_count s' < pending_count s"
    by (auto simp: read_input_report_def pending_count_def
        split: option.splits list.splits read_event.splits)
  from "1.prems" r obtain b where b: "py_index r 0 = Inr b"
    by (subst (asm) read_until_tag.simps) (auto split: sum.splits)
  show ?case
  proof (cases "b \<noteq> tag")
    case True
    with "1.prems" r b have "read_until_tag s' tag = (Returns report, s1)"
      by (subst (asm) read_until_tag.simps) simp
    with "1.IH" [OF r [symmetric] refl refl b True] less show ?thesis
      by simp
  next
    case False
    with "1.prems" r b have "s1 = s'"
      by (subst (asm) read_until_tag.simps) simp
    with less show ?thesis by simp
  qed
qed

text \<open>\<open>_update_input_report\<close>, the body of the daemon thread. The \<open>except OSError\<close> clause
  ends the loop normally (after printing); any other exception leaves the thread.\<close>

function update_input_report :: "joycon \<Rightarrow> unit outcome \<times> joycon" where
  "update_input_report s =
     (if joycon_device s = None then (Returns (), s)
      else
        (case read_until_tag s 0x30 of
           (Returns report, s1) \<Rightarrow> update_input_report (dispatch_hooks (publish s1 report))
         | (Raises e, s1) \<Rightarrow> if e = OSError then (Returns (), s1) else (Raises e, s1)
         | (Blocks, s1) \<Rightarrow> (Blocks, s1)))"
  by pat_completeness auto
termination
proof (relation "measure pending_count")
  show "wf (measure pending_count)"
    by simp
next
  fix s :: joycon and x s1 report
  assume "(x, s1) = read_until_tag s 0x30" and "x = Returns report"
  then have "pending_count s1 < pending_count s"
    using read_until_tag_consumes [of s "0x30" report s1] by simp
  then show "(dispatch_hooks (publish s1 report), s) \<in> measure pending_count"
    by (simp add: dispatch_hooks_def publish_def pending_count_def)
qed

declare update_input_report.simps [simp del]

subsection \<open>What the claims are stated with\<close>

text \<open>The reports a reader waiting for \<open>tag\<close> accepts from a sequence of read results:
  those carrying the tag, up to the first failing read.\<close>

fun accepted_reports :: "byte \<Rightarrow> read_event list \<Rightarrow> byte list list" where
  "accepted_reports tag [] = []"
| "accepted_reports tag (ReadFails # es) = []"
| "accepted_reports tag (Report r # es) =
     (if hd r = tag then r # accepted_reports tag es else accepted_reports tag es)"

text \<open>What the polling loop does with one accepted report: it publishes it, then
  calls every hook in registration order.\<close>

definition observations_of :: "hook list \<Rightarrow> byte list \<Rightarrow> observation list" where
  "observations_of hooks r = Published r # map (\<lambda>h. Dispatched h r) hooks"

text \<open>The argument of a flash read request in the claim's words: the address as four
  little-endian bytes, then the size as one byte.\<close>

definition request_argument :: "int \<Rightarrow> int \<Rightarrow> byte list" where
  "request_argument a n =
     [word_of_int a, word_of_int (a div 2 ^ 8), word_of_int (a div 2 ^ 16),
      word_of_int (a div 2 ^ 24), word_of_int n]"

text \<open>A device's answer to a flash read of \<open>data\<close> at address \<open>a\<close>, as a 49-byte report:
  tag \<open>0x21\<close>, ack byte \<open>0x90\<close>, subcommand echo \<open>0x10\<close>, the echoed argument and the data.
  It is used to build the devices of the examples.\<close>

definition flash_reply :: "int \<Rightarrow> byte list \<Rightarrow> byte list" where
  "flash_reply a data =
     [0x21] @ replicate 12 0 @ [0x90, 0x10] @ request_argument a (int (length data)) @ data
     @ replicate (29 - length data) 0"

section \<open>Supporting lemmas\<close>

lemma push8_or_byte:
  assumes "0 \<le> l" "l < 256"
  shows "push_bit 8 h OR l = 256 * h + (l::int)"
proof -
  have "take_bit 8 l = l"
    using assms by (simp add: take_bit_int_eq_self)
  then have "push_bit 8 h OR l = concat_bit 8 l h"
    by (simp add: concat_bit_def or.commute)
  also have "\<dots> = take_bit 8 l + push_bit 8 h"
    by (simp add: concat_bit_eq)
  finally show ?thesis
    using \<open>take_bit 8 l = l\<close> by (simp add: push_bit_eq_mult)
qed

lemma uint_byte_bounds: "0 \<le> uint (b::byte) \<and> uint b < 256"
  using uint_lt2p [of b] by simp

text \<open>The decoder computes the two's-complement value of the 16-bit word whose low
  byte is its first argument.\<close>

lemma int16_sint:
  "to_int16le_from_2bytes (uint (lo::byte)) (uint (hi::byte)) = sint (word_cat hi lo :: 16 word)"
proof -
  define u where "u = 256 * uint hi + uint lo"
  have lo: "0 \<le> uint lo" "uint lo < 256" and hi: "0 \<le> uint hi" "uint hi < 256"
    using uint_byte_bounds by simp_all
  have ub: "0 \<le> u" "u < 65536"
    using lo hi by (simp_all add: u_def)
  have por: "push_bit 8 (uint hi) OR uint lo = u"
    using lo by (simp add: push8_or_byte u_def)
  have "concat_bit 8 (uint lo) (uint hi) = u"
    using lo by (simp add: concat_bit_eq take_bit_int_eq_self push_bit_eq_mult u_def)
  then have "uint (word_cat hi lo :: 16 word) = take_bit 16 u"
    by (simp add: word_cat_eq' uint_word_of_int_eq)
  also have "\<dots> = u"
    using ub by (simp add: take_bit_int_eq_self)
  finally have "sint (word_cat hi lo :: 16 word) = signed_take_bit 15 u"
    by (simp add: sint_uint)
  also have "\<dots> = take_bit 16 (u + 32768) - 32768"
    by (simp add: signed_take_bit_eq_take_bit_shift)
  also have "\<dots> = (if u < 32768 then u else u - 65536)"
  proof (cases "u < 32768")
    case True
    then have "take_bit 16 (u + 32768) = u + 32768"
      using ub by (simp add: take_bit_int_eq_self)
    then show ?thesis using True by simp
  next
    case False
    have "(u - 32768 + 65536) mod 65536 = (u - 32768) mod 65536"
      by (rule mod_add_self2)
    then have "take_bit 16 (u + 32768) = take_bit 16 (u + 32768 - 65536)"
      by (simp add: take_bit_eq_mod add.commute)
    also have "\<dots> = u + 32768 - 65536"
      using False ub by (simp add: take_bit_int_eq_self)
    finally show ?thesis using False by simp
  qed
  finally show ?thesis
    by (simp add: to_int16le_from_2bytes_def por Let_def)
qed

lemma nbit_range:
  "0 \<le> drop_bit m (k::int) AND (push_bit n 1 - 1)
   \<and> drop_bit m k AND (push_bit n 1 - 1) \<le> 2 ^ n - 1"
proof -
  have "push_bit n (1::int) - 1 = mask n"
    by (simp add: mask_eq_exp_minus_1 push_bit_of_1)
  then have "drop_bit m k AND (push_bit n 1 - 1) = take_bit n (drop_bit m k)"
    by (simp add: take_bit_eq_mask)
  moreover have "take_bit n (drop_bit m k) < 2 ^ n"
    by (rule take_bit_int_less_exp)
  ultimately show ?thesis by simp
qed

lemma push_or_small:
  assumes "0 \<le> l" "l < 2 ^ n"
  shows "push_bit n h OR l = 2 ^ n * h + (l::int)"
proof -
  have t: "take_bit n l = l"
    using assms by (simp add: take_bit_int_eq_self)
  then have "push_bit n h OR l = concat_bit n l h"
    by (simp add: concat_bit_def or.commute)
  also have "\<dots> = take_bit n l + push_bit n h"
    by (simp add: concat_bit_eq)
  finally show ?thesis
    using t by (simp add: push_bit_eq_mult)
qed

lemma shift8_mask_or_eq: "(push_bit 8 (uint (b1::byte)) AND 0xF00) OR uint (b0::byte) = first12 b0 b1"
proof -
  have "(0xF00::int) = push_bit 8 (mask 4)"
    by (simp add: mask_eq_exp_minus_1 push_bit_eq_mult)
  then have "push_bit 8 (uint b1) AND 0xF00 = push_bit 8 (uint b1 AND mask 4)"
    by (simp only: push_bit_and)
  also have "\<dots> = push_bit 8 (uint b1 mod 16)"
    by (simp add: take_bit_eq_mod flip: take_bit_eq_mask)
  finally have "(push_bit 8 (uint b1) AND 0xF00) OR uint b0 = push_bit 8 (uint b1 mod 16) OR uint b0"
    by simp
  also have "\<dots> = 2 ^ 8 * (uint b1 mod 16) + uint b0"
    using uint_byte_bounds [of b0] by (intro push_or_small) simp_all
  finally show ?thesis
    by (simp add: first12_def)
qed

lemma shift4_or_shift4_eq: "push_bit 4 (uint (b2::byte)) OR drop_bit 4 (uint (b1::byte)) = second12 b1 b2"
proof -
  have "0 \<le> uint b1 div 16"
    by (simp add: pos_imp_zdiv_nonneg_iff)
  moreover have "uint b1 div 16 < 2 ^ 4"
    using uint_byte_bounds [of b1] by simp
  ultimately have "push_bit 4 (uint b2) OR uint b1 div 16 = 2 ^ 4 * uint b2 + uint b1 div 16"
    by (rule push_or_small)
  then show ?thesis
    by (simp add: second12_def drop_bit_eq_div)
qed

lemma py_index_in_range:
  "- int (length xs) \<le> i \<Longrightarrow> i < int (length xs) \<Longrightarrow>
   py_index xs i = Inr (xs ! nat (if i < 0 then i + int (length xs) else i))"
  by (simp add: py_index_def Let_def)

lemma py_index_nat: "n < length xs \<Longrightarrow> py_index xs (int n) = Inr (xs ! n)"
  by (simp add: py_index_def Let_def)

lemma get_nbit_value:
  assumes "- int (length (input_report s)) \<le> offset_byte" "offset_byte < int (length (input_report s))"
    and "0 \<le> offset_bit" "0 \<le> nbit"
  shows "\<exists>v. get_nbit_from_input_report s offset_byte offset_bit nbit = Inr v
            \<and> 0 \<le> v \<and> v \<le> 2 ^ nat nbit - 1"
  using assms nbit_range
  by (simp add: get_nbit_from_input_report_def py_index_in_range)

lemma one_bit_value:
  assumes "length (input_report s) = INPUT_REPORT_SIZE" "0 \<le> i" "i < 49" "0 \<le> j"
  shows "get_nbit_from_input_report s i j 1 = Inr 0 \<or> get_nbit_from_input_report s i j 1 = Inr 1"
proof -
  obtain v where "get_nbit_from_input_report s i j 1 = Inr v" "0 \<le> v" "v \<le> 2 ^ nat 1 - 1"
    using get_nbit_value [of s i j 1] assms by (auto simp: INPUT_REPORT_SIZE_def)
  then show ?thesis by (cases "v = 0") auto
qed

lemma stick_slots:
  assumes "length (stick_cal s) = 6" "orientation = 0 \<or> orientation = 1"
  shows "py_index (stick_cal s) (2 + orientation) = Inr (stick_cal s ! nat (2 + orientation))"
    and "py_index (stick_cal s) orientation = Inr (stick_cal s ! nat orientation)"
    and "py_index (stick_cal s) (4 + orientation) = Inr (stick_cal s ! nat (4 + orientation))"
  using assms by (auto simp: py_index_def Let_def)

lemma int16_at_value:
  assumes "0 \<le> i" "i + 1 < int (length rep)"
  shows "int16_at rep i = Inr (sint (word_cat (rep ! nat (i + 1)) (rep ! nat i) :: 16 word))"
  using assms by (simp add: int16_at_def py_index_def Let_def int16_sint)

lemma and_then_Returns [simp]: "and_then (Returns u, s) f = f s"
  by (simp add: and_then_def)

lemma shift8_mask_or_value:
  assumes "length buf = 9" "i < 9" "j < 9"
  shows "shift8_mask_or buf (int i) (int j) = Inr (first12 (buf ! j) (buf ! i))"
  using assms by (simp add: shift8_mask_or_def py_index_nat shift8_mask_or_eq)

lemma shift4_or_shift4_value:
  assumes "length buf = 9" "i < 9" "j < 9"
  shows "shift4_or_shift4 buf (int i) (int j) = Inr (second12 (buf ! j) (buf ! i))"
  using assms by (simp add: shift4_or_shift4_def py_index_nat shift4_or_shift4_eq)

lemma store_stick_cal_value:
  assumes "length buf = 9"
  shows "store_stick_cal s buf =
     (Returns (),
      s\<lparr>stick_cal :=
          (if is_left s then max_above_center buf @ center_pair buf @ min_below_center buf
           else min_below_center buf @ max_above_center buf @ center_pair buf)\<rparr>)"
proof -
  have v: "shift8_mask_or buf 1 0 = Inr (first12 (buf ! 0) (buf ! 1))"
    "shift4_or_shift4 buf 2 1 = Inr (second12 (buf ! 1) (buf ! 2))"
    "shift8_mask_or buf 4 3 = Inr (first12 (buf ! 3) (buf ! 4))"
    "shift4_or_shift4 buf 5 4 = Inr (second12 (buf ! 4) (buf ! 5))"
    "shift8_mask_or buf 7 6 = Inr (first12 (buf ! 6) (buf ! 7))"
    "shift4_or_shift4 buf 8 7 = Inr (second12 (buf ! 7) (buf ! 8))"
    using shift8_mask_or_value [OF assms, of 1 0] shift4_or_shift4_value [OF assms, of 2 1]
      shift8_mask_or_value [OF assms, of 4 3] shift4_or_shift4_value [OF assms, of 5 4]
      shift8_mask_or_value [OF assms, of 7 6] shift4_or_shift4_value [OF assms, of 8 7]
    by simp_all
  have r: "replicate 6 (0::int) = [0, 0, 0, 0, 0, 0]"
    by (simp add: numeral_eq_Suc)
  show ?thesis
    by (simp add: store_stick_cal_def v assign_stick_cal_def is_left_def Let_def r
        max_above_center_def center_pair_def min_below_center_def)
qed

lemma py_index_hd: "r \<noteq> [] \<Longrightarrow> py_index r 0 = Inr (hd r)"
  by (cases r) (simp_all add: py_index_def)

lemma read_until_tag_Nil:
  "joycon_device s = Some d \<Longrightarrow> pending d = [] \<Longrightarrow> read_until_tag s tag = (Blocks, s)"
  by (subst read_until_tag.simps) (simp add: read_input_report_def)

lemma read_until_tag_ReadFails:
  "joycon_device s = Some d \<Longrightarrow> pending d = ReadFails # es \<Longrightarrow>
   read_until_tag s tag = (Raises OSError, s\<lparr>joycon_device := Some (d\<lparr>pending := es\<rparr>)\<rparr>)"
  by (subst read_until_tag.simps) (simp add: read_input_report_def)

lemma read_until_tag_empty_report:
  "joycon_device s = Some d \<Longrightarrow> pending d = Report [] # es \<Longrightarrow>
   read_until_tag s tag = (Raises IndexError, s\<lparr>joycon_device := Some (d\<lparr>pending := es\<rparr>)\<rparr>)"
  by (subst read_until_tag.simps) (simp add: read_input_report_def py_index_def)

lemma read_until_tag_match:
  "joycon_device s = Some d \<Longrightarrow> pending d = Report r # es \<Longrightarrow> r \<noteq> [] \<Longrightarrow> hd r = tag \<Longrightarrow>
   read_until_tag s tag = (Returns r, s\<lparr>joycon_device := Some (d\<lparr>pending := es\<rparr>)\<rparr>)"
  by (subst read_until_tag.simps) (simp add: read_input_report_def py_index_hd)

lemma read_until_tag_discard:
  "joycon_device s = Some d \<Longrightarrow> pending d = Report r # es \<Longrightarrow> r \<noteq> [] \<Longrightarrow> hd r \<noteq> tag \<Longrightarrow>
   read_until_tag s tag = read_until_tag (s\<lparr>joycon_device := Some (d\<lparr>pending := es\<rparr>)\<rparr>) tag"
  by (subst read_until_tag.simps) (simp add: read_input_report_def py_index_hd)

lemma read_until_tag_no_device:
  "joycon_device s = None \<Longrightarrow> read_until_tag s tag = (Raises TypeError, s)"
  by (subst read_until_tag.simps) (simp add: read_input_report_def)

text \<open>Skipping a run of non-matching reports.\<close>

lemma read_until_tag_skip:
  assumes "joycon_device s = Some d" and "pending d = map Report pre @ es"
    and "\<forall>p \<in> set pre. p \<noteq> [] \<and> hd p \<noteq> tag"
  shows "read_until_tag s tag
     = read_until_tag (s\<lparr>joycon_device := Some (d\<lparr>pending := es\<rparr>)\<rparr>) tag"
  using assms
proof (induction pre arbitrary: s d)
  case Nil
  then have "s\<lparr>joycon_device := Some (d\<lparr>pending := es\<rparr>)\<rparr> = s"
    by simp
  then show ?case by simp
next
  case (Cons p pre)
  let ?d = "d\<lparr>pending := map Report pre @ es\<rparr>"
  let ?s = "s\<lparr>joycon_device := Some ?d\<rparr>"
  have "read_until_tag s tag = read_until_tag ?s tag"
    using Cons.prems read_until_tag_discard [of s d p "map Report pre @ es" tag] by simp
  also have "\<dots> = read_until_tag (?s\<lparr>joycon_device := Some (?d\<lparr>pending := es\<rparr>)\<rparr>) tag"
    using Cons.prems Cons.IH [of ?s ?d] by simp
  finally show ?case by simp
qed

text \<open>The three ways the loop can end when every delivered report is non-empty.\<close>

lemma read_until_tag_cases:
  assumes "joycon_device s = Some d" and "\<forall>p. Report p \<in> set (pending d) \<longrightarrow> p \<noteq> []"
  shows "(\<exists>pre r rest. pending d = map Report pre @ Report r # rest
            \<and> (\<forall>p \<in> set pre. hd p \<noteq> tag) \<and> hd r = tag
            \<and> read_until_tag s tag = (Returns r, s\<lparr>joycon_device := Some (d\<lparr>pending := rest\<rparr>)\<rparr>))
       \<or> (\<exists>pre rest. pending d = map Report pre @ ReadFails # rest
            \<and> (\<forall>p \<in> set pre. hd p \<noteq> tag)
            \<and> read_until_tag s tag = (Raises OSError, s\<lparr>joycon_device := Some (d\<lparr>pending := rest\<rparr>)\<rparr>))
       \<or> (\<exists>pre. pending d = map Report pre \<and> (\<forall>p \<in> set pre. hd p \<noteq> tag)
            \<and> read_until_tag s tag = (Blocks, s\<lparr>joycon_device := Some (d\<lparr>pending := []\<rparr>)\<rparr>))"
  using assms
proof (induction "pending d" arbitrary: s d)
  case Nil
  then have "read_until_tag s tag = (Blocks, s)" and "s\<lparr>joycon_device := Some (d\<lparr>pending := []\<rparr>)\<rparr> = s"
    by (simp_all add: read_until_tag_Nil)
  with Nil show ?case by simp
next
  case (Cons e es)
  note pd = Cons.hyps(2) [symmetric]
  show ?case
  proof (cases e)
    case ReadFails
    then have "pending d = map Report [] @ ReadFails # es"
      using pd by simp
    moreover have "read_until_tag s tag = (Raises OSError, s\<lparr>joycon_device := Some (d\<lparr>pending := es\<rparr>)\<rparr>)"
      using Cons.prems pd ReadFails read_until_tag_ReadFails [of s d es tag] by simp
    ultimately show ?thesis by fastforce
  next
    case (Report r)
    then have ne: "r \<noteq> []"
      using Cons.prems pd by simp
    show ?thesis
    proof (cases "hd r = tag")
      case True
      have "pending d = map Report [] @ Report r # es"
        using pd Report by simp
      moreover have "read_until_tag s tag = (Returns r, s\<lparr>joycon_device := Some (d\<lparr>pending := es\<rparr>)\<rparr>)"
        using Cons.prems pd Report ne True read_until_tag_match [of s d r es tag] by simp
      ultimately show ?thesis using True by fastforce
    next
      case False
      let ?d = "d\<lparr>pending := es\<rparr>"
      let ?s = "s\<lparr>joycon_device := Some ?d\<rparr>"
      have step: "read_until_tag s tag = read_until_tag ?s tag"
        using Cons.prems pd Report ne False read_until_tag_discard [of s d r es tag] by simp
      have ih: "(\<exists>pre r rest. pending ?d = map Report pre @ Report r # rest
            \<and> (\<forall>p \<in> set pre. hd p \<noteq> tag) \<and> hd r = tag
            \<and> read_until_tag ?s tag = (Returns r, ?s\<lparr>joycon_device := Some (?d\<lparr>pending := rest\<rparr>)\<rparr>))
       \<or> (\<exists>pre rest. pending ?d = map Report pre @ ReadFails # rest
            \<and> (\<forall>p \<in> set pre. hd p \<noteq> tag)
            \<and> read_until_tag ?s tag = (Raises OSError, ?s\<lparr>joycon_device := Some (?d\<lparr>pending := rest\<rparr>)\<rparr>))
       \<or> (\<exists>pre. pending ?d = map Report pre \<and> (\<forall>p \<in> set pre. hd p \<noteq> tag)
            \<and> read_until_tag ?s tag = (Blocks, ?s\<lparr>joycon_device := Some (?d\<lparr>pending := []\<rparr>)\<rparr>))"
        using Cons.prems pd Cons.hyps(1) [of ?d ?s] by auto
      then consider
        (ret) pre r' rest where "es = map Report pre @ Report r' # rest" "\<forall>p \<in> set pre. hd p \<noteq> tag"
          "hd r' = tag" "read_until_tag ?s tag = (Returns r', s\<lparr>joycon_device := Some (d\<lparr>pending := rest\<rparr>)\<rparr>)"
      | (fail) pre rest where "es = map Report pre @ ReadFails # rest" "\<forall>p \<in> set pre. hd p \<noteq> tag"
          "read_until_tag ?s tag = (Raises OSError, s\<lparr>joycon_device := Some (d\<lparr>pending := rest\<rparr>)\<rparr>)"
      | (block) pre where "es = map Report pre" "\<forall>p \<in> set pre. hd p \<noteq> tag"
          "read_until_tag ?s tag = (Blocks, s\<lparr>joycon_device := Some (d\<lparr>pending := []\<rparr>)\<rparr>)"
        by auto
      then show ?thesis
      proof cases
        case ret
        have "pending d = map Report (r # pre) @ Report r' # rest"
          using pd Report ret(1) by simp
        moreover have "\<forall>p \<in> set (r # pre). hd p \<noteq> tag"
          using False ret(2) by simp
        ultimately show ?thesis
          using ret(3,4) step by metis
      next
        case fail
        have "pending d = map Report (r # pre) @ ReadFails # rest"
          using pd Report fail(1) by simp
        moreover have "\<forall>p \<in> set (r # pre). hd p \<noteq> tag"
          using False fail(2) by simp
        ultimately show ?thesis
          using fail(3) step by metis
      next
        case block
        have "pending d = map Report (r # pre)"
          using pd Report block(1) by simp
        moreover have "\<forall>p \<in> set (r # pre). hd p \<noteq> tag"
          using False block(2) by simp
        ultimately show ?thesis
          using block(3) step by metis
      qed
    qed
  qed
qed

lemma accepted_reports_skip:
  "\<forall>p \<in> set pre. hd p \<noteq> tag \<Longrightarrow>
   accepted_reports tag (map Report pre @ es) = accepted_reports tag es"
  by (induction pre) simp_all

lemma accepted_reports_tag: "r \<in> set (accepted_reports tag es) \<Longrightarrow> hd r = tag"
  by (induction tag es rule: accepted_reports.induct) (auto split: if_splits)

lemma update_input_report_effect:
  assumes "joycon_device s = Some d" and "\<forall>p. Report p \<in> set (pending d) \<longrightarrow> p \<noteq> []"
  shows "fst (update_input_report s) = (if ReadFails \<in> set (pending d) then Returns () else Blocks)
       \<and> observed (snd (update_input_report s))
           = observed s @ concat (map (observations_of (input_hooks s))
                                     (accepted_reports 0x30 (pending d)))
       \<and> input_report (snd (update_input_report s))
           = last (input_report s # accepted_reports 0x30 (pending d))"
  using assms
proof (induction "length (pending d)" arbitrary: s d rule: less_induct)
  case less
  note dev = less.prems(1)
  consider
    (ret) pre r rest where "pending d = map Report pre @ Report r # rest"
      "\<forall>p \<in> set pre. hd p \<noteq> 0x30" "hd r = 0x30"
      "read_until_tag s 0x30 = (Returns r, s\<lparr>joycon_device := Some (d\<lparr>pending := rest\<rparr>)\<rparr>)"
  | (fail) pre rest where "pending d = map Report pre @ ReadFails # rest"
      "\<forall>p \<in> set pre. hd p \<noteq> 0x30"
      "read_until_tag s 0x30 = (Raises OSError, s\<lparr>joycon_device := Some (d\<lparr>pending := rest\<rparr>)\<rparr>)"
  | (block) pre where "pending d = map Report pre" "\<forall>p \<in> set pre. hd p \<noteq> 0x30"
      "read_until_tag s 0x30 = (Blocks, s\<lparr>joycon_device := Some (d\<lparr>pending := []\<rparr>)\<rparr>)"
    using read_until_tag_cases [OF less.prems, of "0x30"] by blast
  then show ?case
  proof cases
    case ret
    let ?d = "d\<lparr>pending := rest\<rparr>"
    let ?s = "dispatch_hooks (publish (s\<lparr>joycon_device := Some ?d\<rparr>) r)"
    have u: "update_input_report s = update_input_report ?s"
      using dev ret(4) by (subst update_input_report.simps) simp
    have d': "joycon_device ?s = Some ?d"
      by (simp add: dispatch_hooks_def publish_def)
    have ne: "\<forall>p. Report p \<in> set (pending ?d) \<longrightarrow> p \<noteq> []"
      using less.prems(2) ret(1) by simp
    have "length (pending ?d) < length (pending d)"
      using ret(1) by simp
    from less.hyps [OF this d' ne]
    have ih: "fst (update_input_report ?s) = (if ReadFails \<in> set rest then Returns () else Blocks)"
      "observed (snd (update_input_report ?s))
           = observed ?s @ concat (map (observations_of (input_hooks ?s)) (accepted_reports 0x30 rest))"
      "input_report (snd (update_input_report ?s)) = last (input_report ?s # accepted_reports 0x30 rest)"
      by simp_all
    have acc: "accepted_reports 0x30 (pending d) = r # accepted_reports 0x30 rest"
      using ret(1,2,3) by (simp add: accepted_reports_skip)
    have fl: "(ReadFails \<in> set (pending d)) = (ReadFails \<in> set rest)"
      using ret(1) by auto
    have obs: "observed ?s = observed s @ observations_of (input_hooks s) r"
      "input_hooks ?s = input_hooks s" "input_report ?s = r"
      by (simp_all add: dispatch_hooks_def publish_def observations_of_def)
    show ?thesis
      unfolding u ih acc fl obs by simp
  next
    case fail
    have u: "update_input_report s = (Returns (), s\<lparr>joycon_device := Some (d\<lparr>pending := rest\<rparr>)\<rparr>)"
      using dev fail(3) by (subst update_input_report.simps) simp
    have acc: "accepted_reports 0x30 (pending d) = []"
      using fail(1,2) by (simp add: accepted_reports_skip)
    show ?thesis
      unfolding u acc using fail(1) by simp
  next
    case block
    have u: "update_input_report s = (Blocks, s\<lparr>joycon_device := Some (d\<lparr>pending := []\<rparr>)\<rparr>)"
      using dev block(3) by (subst update_input_report.simps) simp
    have acc: "accepted_reports 0x30 (pending d) = []"
      using block(1,2) accepted_reports_skip [of pre "0x30" "[]"] by simp
    have "ReadFails \<notin> set (pending d)"
      using block(1) by auto
    then show ?thesis
      unfolding u acc by simp
  qed
qed

lemma le_bytes_4:
  "le_bytes 4 a = [word_of_int a, word_of_int (a div 2 ^ 8), word_of_int (a div 2 ^ 16),
      word_of_int (a div 2 ^ 24)]"
proof -
  have "a div 256 div 256 = a div 65536" "a div 256 div 256 div 256 = a div 16777216"
    by (simp_all add: div_mult2_eq [symmetric])
  then show ?thesis
    by (simp add: numeral_eq_Suc)
qed

lemma request_argument_bytes:
  assumes "0 \<le> a" "a < 2 ^ 32" "0 \<le> n" "n \<le> 0x1D"
  shows "to_bytes_little a 4 = Inr (take 4 (request_argument a n))"
    and "to_bytes_little n 1 = Inr (drop 4 (request_argument a n))"
  using assms by (simp_all add: to_bytes_little_def le_bytes_4 request_argument_def)

lemma write_output_report_device:
  assumes "joycon_device s = Some d" "0 \<le> packet_number s" "packet_number s < 256"
  shows "write_output_report s command subcommand argument =
     (Returns (),
      s\<lparr>joycon_device := Some (d\<lparr>written := written d @
            [command @ [word_of_int (packet_number s)] @ RUMBLE_DATA @ subcommand @ argument]\<rparr>),
        packet_number := (packet_number s + 1) AND 0xF\<rparr>)"
  using assms by (simp add: write_output_report_def to_bytes_little_def)

lemma write_output_report_pending:
  assumes "joycon_device s = Some d"
    and "write_output_report s command subcommand argument = (Returns u, s1)"
  shows "\<exists>d1. joycon_device s1 = Some d1 \<and> pending d1 = pending d"
  using assms by (auto simp: write_output_report_def split: sum.splits)


lemma read_until_tag_reply:
  assumes "joycon_device s = Some d"
    and "pending d = map Report pre @ Report reply # rest"
    and "\<forall>p \<in> set pre. p \<noteq> [] \<and> hd p \<noteq> tag"
    and "reply \<noteq> []" "hd reply = tag"
  shows "read_until_tag s tag = (Returns reply, s\<lparr>joycon_device := Some (d\<lparr>pending := rest\<rparr>)\<rparr>)"
proof -
  let ?d = "d\<lparr>pending := Report reply # rest\<rparr>"
  let ?s = "s\<lparr>joycon_device := Some ?d\<rparr>"
  have "read_until_tag s tag = read_until_tag ?s tag"
    using assms(1-3) by (rule read_until_tag_skip)
  also have "\<dots> = (Returns reply, ?s\<lparr>joycon_device := Some (?d\<lparr>pending := rest\<rparr>)\<rparr>)"
    using assms(4,5) read_until_tag_match [of ?s ?d reply rest tag] by simp
  finally show ?thesis by simp
qed

lemma slice_1_2: "2 \<le> length r \<Longrightarrow> py_slice (Suc 0) 2 r = [r ! Suc 0]"
  by (cases r; cases "tl r") (auto simp: py_slice_def)

lemma send_subcmd_reply:
  assumes "joycon_device s = Some d" "0 \<le> packet_number s" "packet_number s < 256"
    and "pending d = map Report pre @ Report reply # rest"
    and "\<forall>p \<in> set pre. p \<noteq> [] \<and> hd p \<noteq> 0x21"
    and "hd reply = 0x21" "length reply = INPUT_REPORT_SIZE"
  shows "send_subcmd_get_response s subcommand argument =
     (if [reply ! 1] = subcommand then Raises AssertionError
      else Returns (uint (reply ! 13) AND 0x80, drop 13 reply),
      s\<lparr>joycon_device := Some (d\<lparr>pending := rest, written := written d @
            [[0x01, word_of_int (packet_number s)] @ RUMBLE_DATA @ subcommand @ argument]\<rparr>),
        packet_number := (packet_number s + 1) AND 0xF\<rparr>)"
proof -
  define d1 where "d1 = d\<lparr>written := written d @
            [[0x01] @ [word_of_int (packet_number s)] @ RUMBLE_DATA @ subcommand @ argument]\<rparr>"
  define s1 where "s1 = s\<lparr>joycon_device := Some d1, packet_number := (packet_number s + 1) AND 0xF\<rparr>"
  define s2 where "s2 = s1\<lparr>joycon_device := Some (d1\<lparr>pending := rest\<rparr>)\<rparr>"
  have len: "length reply = 49"
    using assms(7) by (simp add: INPUT_REPORT_SIZE_def)
  then have ne: "reply \<noteq> []"
    by auto
  have w: "write_output_report s [0x01] subcommand argument = (Returns (), s1)"
    unfolding s1_def d1_def using assms(1-3) by (rule write_output_report_device)
  have "joycon_device s1 = Some d1" "pending d1 = map Report pre @ Report reply # rest"
    using assms(4) by (simp_all add: s1_def d1_def)
  then have r: "read_until_tag s1 0x21 = (Returns reply, s2)"
    unfolding s2_def using assms(5) ne assms(6) by (rule read_until_tag_reply)
  have i: "py_index reply 13 = Inr (reply ! 13)"
    using len by (simp add: py_index_def)
  have sl: "py_slice (Suc 0) 2 reply = [reply ! Suc 0]"
    by (rule slice_1_2) (simp add: len)
  have "send_subcmd_get_response s subcommand argument =
     (if [reply ! 1] = subcommand then Raises AssertionError
      else Returns (uint (reply ! 13) AND 0x80, drop 13 reply), s2)"
    by (simp add: send_subcmd_get_response_def w r i sl)
  then show ?thesis
    by (simp add: s2_def s1_def d1_def)
qed

lemma send_subcmd_accepts:
  assumes "joycon_device s = Some d" and "\<forall>p. Report p \<in> set (pending d) \<longrightarrow> p \<noteq> []"
    and "send_subcmd_get_response s subcommand argument = (Returns (ack, data), s')"
  shows "\<exists>pre r rest. pending d = map Report pre @ Report r # rest
           \<and> (\<forall>p \<in> set pre. hd p \<noteq> 0x21) \<and> hd r = 0x21 \<and> data = drop 13 r"
proof -
  obtain o1 s1 where w: "write_output_report s [0x01] subcommand argument = (o1, s1)"
    by (cases "write_output_report s [0x01] subcommand argument")
  with assms(3) obtain u where o1: "o1 = Returns u"
    by (cases o1) (simp_all add: send_subcmd_get_response_def)
  obtain d1 where d1: "joycon_device s1 = Some d1" "pending d1 = pending d"
    using write_output_report_pending [OF assms(1)] w o1 by blast
  obtain o2 s2 where r: "read_until_tag s1 0x21 = (o2, s2)"
    by (cases "read_until_tag s1 0x21")
  with assms(3) w o1 obtain rep where o2: "o2 = Returns rep"
    by (cases o2) (simp_all add: send_subcmd_get_response_def)
  have data: "data = drop 13 rep"
    using assms(3) w o1 r o2
    by (simp add: send_subcmd_get_response_def split: if_splits sum.splits)
  have ne: "\<forall>p. Report p \<in> set (pending d1) \<longrightarrow> p \<noteq> []"
    using assms(2) d1(2) by simp
  from read_until_tag_cases [OF d1(1) ne, of "0x21"] r o2
  obtain pre r' rest where p: "pending d1 = map Report pre @ Report r' # rest"
    "\<forall>p \<in> set pre. hd p \<noteq> 0x21" "hd r' = 0x21" "rep = r'"
    by auto
  have "pending d = map Report pre @ Report rep # rest \<and> (\<forall>p \<in> set pre. hd p \<noteq> 0x21)
      \<and> hd rep = 0x21 \<and> data = drop 13 rep"
    using p d1(2) data by simp
  then show ?thesis
    by blast
qed

lemma read_input_report_product:
  "read_input_report s = (x, s') \<Longrightarrow> product_id s' = product_id s"
  by (auto simp: read_input_report_def split: option.splits list.splits read_event.splits)

lemma read_until_tag_product:
  "product_id (snd (read_until_tag s tag)) = product_id s"
proof (induction s tag rule: read_until_tag.induct)
  case (1 s tag)
  obtain x s' where r: "read_input_report s = (x, s')"
    by (cases "read_input_report s")
  then have p: "product_id s' = product_id s"
    by (rule read_input_report_product)
  show ?case
  proof (cases x)
    case (Returns y)
    show ?thesis
    proof (cases y)
      case None
      with r Returns p show ?thesis
        by (subst read_until_tag.simps) simp
    next
      case (Some report)
      show ?thesis
      proof (cases "py_index report 0")
        case (Inl e)
        with r Returns Some p show ?thesis
          by (subst read_until_tag.simps) simp
      next
        case (Inr b)
        show ?thesis
        proof (cases "b \<noteq> tag")
          case True
          have "product_id (snd (read_until_tag s' tag)) = product_id s'"
            using "1.IH" [OF r [symmetric] Returns Some Inr True] .
          with r Returns Some Inr True p show ?thesis
            by (subst read_until_tag.simps) simp
        next
          case False
          with r Returns Some Inr p show ?thesis
            by (subst read_until_tag.simps) simp
        qed
      qed
    qed
  next
    case (Raises e)
    with r p show ?thesis
      by (subst read_until_tag.simps) simp
  next
    case Blocks
    with r p show ?thesis
      by (subst read_until_tag.simps) simp
  qed
qed

lemma write_output_report_product:
  "product_id (snd (write_output_report s c sub arg)) = product_id s"
  by (simp add: write_output_report_def split: option.splits sum.splits)

lemma send_subcmd_product:
  "product_id (snd (send_subcmd_get_response s sub arg)) = product_id s"
proof -
  obtain o1 s1 where w: "write_output_report s [0x01] sub arg = (o1, s1)"
    by (cases "write_output_report s [0x01] sub arg")
  then have p1: "product_id s1 = product_id s"
    using write_output_report_product [of s "[0x01]" sub arg] by simp
  obtain o2 s2 where r: "read_until_tag s1 0x21 = (o2, s2)"
    by (cases "read_until_tag s1 0x21")
  then have p2: "product_id s2 = product_id s1"
    using read_until_tag_product [of s1 "0x21"] by simp
  show ?thesis
    using w r p1 p2
    by (simp add: send_subcmd_get_response_def split: outcome.splits sum.splits)
qed

lemma spi_flash_read_product:
  "product_id (snd (spi_flash_read s a n)) = product_id s"
proof -
  have "product_id (snd (case send_subcmd_get_response s [0x10] arg of
        (Returns (ack, report), s1) \<Rightarrow>
           if ack = 0 then (Raises OSError, s1)
           else if py_slice 0 2 report \<noteq> [0x90, 0x10] then (Raises OSError, s1)
           else if \<not> (py_slice 2 7 report = arg) then (Raises AssertionError, s1)
           else (Returns (py_slice 7 (nat n + 7) report), s1)
      | (Raises e, s1) \<Rightarrow> (Raises e, s1)
      | (Blocks, s1) \<Rightarrow> (Blocks, s1))) = product_id s" for arg
  proof -
    obtain x s1 where r: "send_subcmd_get_response s [0x10] arg = (x, s1)"
      by (cases "send_subcmd_get_response s [0x10] arg")
    then have "product_id s1 = product_id s"
      using send_subcmd_product [of s "[0x10]" arg] by simp
    then show ?thesis
      unfolding r by (cases x) (auto split: prod.splits)
  qed
  then show ?thesis
    by (simp add: spi_flash_read_def Let_def split: sum.splits)
qed

lemma use_user_data_iff: "use_user_data buf = (\<exists>b \<in> set buf. b \<noteq> 0xFF)"
  by (induction buf) auto

lemma float_bounds_ordinary:
  "float_underflow < 1 / 65536" "65536 < float_overflow"
  by (simp_all add: float_underflow_def float_overflow_def)

lemma one_over_int16_diff:
  assumes "- 65536 < k" "k < 65536"
  shows "one_over k = (if k = 0 then Inl ZeroDivisionError else Inr (1 / real_of_int k))"
proof -
  have "\<bar>real_of_int k\<bar> < 65536"
    using assms by linarith
  then have "\<not> float_overflow \<le> \<bar>real_of_int k\<bar>"
    using float_bounds_ordinary(2) by linarith
  then show ?thesis
    by (simp add: one_over_def float_of_int_def)
qed

lemma int_truediv_sgn:
  assumes "0 < d"
  shows "sgn (real_of_int a / real_of_int d) = sgn (real_of_int a)"
  using assms by (simp add: sgn_divide)

lemma float_range_ordinary:
  assumes "1 / 65536 \<le> \<bar>q\<bar>" "\<bar>q\<bar> \<le> 65536"
  shows "float_underflow < \<bar>q\<bar> \<and> \<bar>q\<bar> < float_overflow"
  using assms float_bounds_ordinary by linarith

lemma send_subcmd_waits:
  assumes "joycon_device s = Some d" and "\<forall>p. Report p \<in> set (pending d) \<longrightarrow> p \<noteq> []"
    and "0 \<le> packet_number s" "packet_number s < 16"
  shows "(\<forall>pre r rest. pending d = map Report pre @ Report r # rest
        \<and> (\<forall>p \<in> set pre. hd p \<noteq> 0x21) \<and> hd r = 0x21 \<longrightarrow>
        fst (send_subcmd_get_response s subcommand argument)
          = (if py_slice 1 2 r = subcommand then Raises AssertionError
             else case py_index r 13 of
                    Inl e \<Rightarrow> Raises e
                  | Inr b \<Rightarrow> Returns (uint b AND 0x80, drop 13 r))
        \<and> joycon_device (snd (send_subcmd_get_response s subcommand argument))
          = Some (d\<lparr>pending := rest, written := written d @ [[0x01, word_of_int (packet_number s)] @ RUMBLE_DATA @ subcommand @ argument]\<rparr>))
  \<and> (\<forall>pre rest. pending d = map Report pre @ ReadFails # rest
        \<and> (\<forall>p \<in> set pre. hd p \<noteq> 0x21) \<longrightarrow>
        fst (send_subcmd_get_response s subcommand argument) = Raises OSError
        \<and> joycon_device (snd (send_subcmd_get_response s subcommand argument))
          = Some (d\<lparr>pending := rest, written := written d @ [[0x01, word_of_int (packet_number s)] @ RUMBLE_DATA @ subcommand @ argument]\<rparr>))
  \<and> (\<forall>pre. pending d = map Report pre \<and> (\<forall>p \<in> set pre. hd p \<noteq> 0x21) \<longrightarrow>
        fst (send_subcmd_get_response s subcommand argument) = Blocks
        \<and> joycon_device (snd (send_subcmd_get_response s subcommand argument))
          = Some (d\<lparr>pending := [], written := written d @ [[0x01, word_of_int (packet_number s)] @ RUMBLE_DATA @ subcommand @ argument]\<rparr>))"
proof -
  define d1 where "d1 = d\<lparr>written := written d @
            [[0x01] @ [word_of_int (packet_number s)] @ RUMBLE_DATA @ subcommand @ argument]\<rparr>"
  define s1 where "s1 = s\<lparr>joycon_device := Some d1, packet_number := (packet_number s + 1) AND 0xF\<rparr>"
  have w: "write_output_report s [0x01] subcommand argument = (Returns (), s1)"
    unfolding s1_def d1_def using assms(1,3,4) by (intro write_output_report_device) simp_all
  have dev: "joycon_device s1 = Some d1" and pend: "pending d1 = pending d"
    by (simp_all add: s1_def d1_def)
  have send: "send_subcmd_get_response s subcommand argument =
      (case read_until_tag s1 0x21 of
         (Returns report, s2) \<Rightarrow>
           if \<not> (py_slice 1 2 report \<noteq> subcommand) then (Raises AssertionError, s2)
           else
             (case py_index report 13 of
                Inl e \<Rightarrow> (Raises e, s2)
              | Inr b \<Rightarrow> (Returns (uint b AND 0x80, drop 13 report), s2))
       | (Raises e, s2) \<Rightarrow> (Raises e, s2)
       | (Blocks, s2) \<Rightarrow> (Blocks, s2))"
    by (simp add: send_subcmd_get_response_def w)
  have upd: "\<And>es. joycon_device (s1\<lparr>joycon_device := Some (d1\<lparr>pending := es\<rparr>)\<rparr>)
      = Some (d\<lparr>pending := es, written := written d @
            [[0x01, word_of_int (packet_number s)] @ RUMBLE_DATA @ subcommand @ argument]\<rparr>)"
    by (simp add: s1_def d1_def)
  show ?thesis
  proof (intro conjI allI impI)
    fix pre r rest
    assume h: "pending d = map Report pre @ Report r # rest
        \<and> (\<forall>p \<in> set pre. hd p \<noteq> 0x21) \<and> hd r = 0x21"
    have ne: "\<forall>p \<in> set pre. p \<noteq> [] \<and> hd p \<noteq> 0x21" "r \<noteq> []"
      using h assms(2) by auto
    have r: "read_until_tag s1 0x21
        = (Returns r, s1\<lparr>joycon_device := Some (d1\<lparr>pending := rest\<rparr>)\<rparr>)"
      using dev _ ne(1) ne(2) by (rule read_until_tag_reply) (simp_all add: pend h)
    show "fst (send_subcmd_get_response s subcommand argument)
                  = (if py_slice 1 2 r = subcommand then Raises AssertionError
                     else case py_index r 13 of
                            Inl e \<Rightarrow> Raises e
                          | Inr b \<Rightarrow> Returns (uint b AND 0x80, drop 13 r))"
      unfolding send r by (simp split: sum.splits)
    show "joycon_device (snd (send_subcmd_get_response s subcommand argument))
                  = Some (d\<lparr>pending := rest, written := written d @
            [[0x01, word_of_int (packet_number s)] @ RUMBLE_DATA @ subcommand @ argument]\<rparr>)"
      unfolding send r using upd [of rest] by (simp split: sum.splits)
  next
    fix pre rest
    assume h: "pending d = map Report pre @ ReadFails # rest \<and> (\<forall>p \<in> set pre. hd p \<noteq> 0x21)"
    have ne: "\<forall>p \<in> set pre. p \<noteq> [] \<and> hd p \<noteq> 0x21"
      using h assms(2) by auto
    let ?d = "d1\<lparr>pending := ReadFails # rest\<rparr>"
    let ?s = "s1\<lparr>joycon_device := Some ?d\<rparr>"
    have "read_until_tag s1 0x21 = read_until_tag ?s 0x21"
      using dev _ ne by (rule read_until_tag_skip) (simp add: pend h)
    also have "\<dots> = (Raises OSError, ?s\<lparr>joycon_device := Some (?d\<lparr>pending := rest\<rparr>)\<rparr>)"
      using read_until_tag_ReadFails [of ?s ?d rest "0x21"] by simp
    finally have r: "read_until_tag s1 0x21
        = (Raises OSError, s1\<lparr>joycon_device := Some (d1\<lparr>pending := rest\<rparr>)\<rparr>)"
      by simp
    show "fst (send_subcmd_get_response s subcommand argument) = Raises OSError"
      unfolding send r by simp
    show "joycon_device (snd (send_subcmd_get_response s subcommand argument))
                  = Some (d\<lparr>pending := rest, written := written d @
            [[0x01, word_of_int (packet_number s)] @ RUMBLE_DATA @ subcommand @ argument]\<rparr>)"
      unfolding send r using upd [of rest] by simp
  next
    fix pre
    assume h: "pending d = map Report pre \<and> (\<forall>p \<in> set pre. hd p \<noteq> 0x21)"
    have ne: "\<forall>p \<in> set pre. p \<noteq> [] \<and> hd p \<noteq> 0x21"
      using h assms(2) by auto
    let ?d = "d1\<lparr>pending := []\<rparr>"
    let ?s = "s1\<lparr>joycon_device := Some ?d\<rparr>"
    have "read_until_tag s1 0x21 = read_until_tag ?s 0x21"
      using dev _ ne by (rule read_until_tag_skip) (simp add: pend h)
    also have "\<dots> = (Blocks, ?s)"
      using read_until_tag_Nil [of ?s ?d "0x21"] by simp
    finally have r: "read_until_tag s1 0x21 = (Blocks, ?s)" .
    show "fst (send_subcmd_get_response s subcommand argument) = Blocks"
      unfolding send r by simp
    show "joycon_device (snd (send_subcmd_get_response s subcommand argument))
                  = Some (d\<lparr>pending := [], written := written d @
            [[0x01, word_of_int (packet_number s)] @ RUMBLE_DATA @ subcommand @ argument]\<rparr>)"
      unfolding send r using upd [of "[]"] by simp
  qed
qed

section \<open>The claims\<close>

text \<open>
  C7. For every integer \<open>v\<close> with \<open>-32768 \<le> v \<le> 32767\<close>, decoding the two bytes of the
  16-bit little-endian encoding of \<open>v\<close> with \<open>_to_int16le_from_2bytes\<close> (low byte first,
  high byte second) gives \<open>v\<close> back.
\<close>

theorem to_int16le_decodes_encoding:
  assumes "- 32768 \<le> v" and "v \<le> 32767"
  shows "to_int16le_from_2bytes (fst (encode_int16le v)) (snd (encode_int16le v)) = v"
proof -
  let ?lo = "v mod 256" and ?hi = "(v div 256) mod 256"
  have "push_bit 8 ?hi OR ?lo = 256 * ?hi + ?lo"
    by (rule push8_or_byte) simp_all
  moreover have "v mod (256 * 256) = 256 * ?hi + ?lo"
    by (rule zmod_zmult2_eq) simp
  moreover have "v mod 65536 = (if 0 \<le> v then v else v + 65536)"
  proof (cases "0 \<le> v")
    case True
    then show ?thesis using assms by (simp add: mod_pos_pos_trivial)
  next
    case False
    have "v mod 65536 = (v + 65536) mod 65536" by simp
    also have "\<dots> = v + 65536"
      using assms False by (intro mod_pos_pos_trivial) simp_all
    finally show ?thesis using False by simp
  qed
  ultimately have u: "push_bit 8 ?hi OR ?lo = (if 0 \<le> v then v else v + 65536)"
    by simp
  show ?thesis
    unfolding to_int16le_from_2bytes_def encode_int16le_def Let_def fst_conv snd_conv u
    using assms by simp
qed

theorem to_int16le_decodes_encoding_witness:
  "- 32768 \<le> (- 2 :: int) \<and> (- 2 :: int) \<le> 32767 \<and> encode_int16le (- 2) = (254, 255)
   \<and> to_int16le_from_2bytes 254 255 = - 2"
proof -
  have e: "encode_int16le (- 2) = (254, 255)"
    by (simp add: encode_int16le_def)
  have "to_int16le_from_2bytes (fst (encode_int16le (- 2))) (snd (encode_int16le (- 2))) = - 2"
    by (rule to_int16le_decodes_encoding) simp_all
  with e show ?thesis by simp
qed

text \<open>
  C10. For every 49-byte current report (the all-zero report installed by \<open>__init__\<close>
  included) and every valid byte offset, non-negative bit offset and width \<open>n\<close>, the
  field extractor returns a value in \<open>[0, 2^n - 1]\<close>; every single-bit button getter and
  the battery-charging getter return 0 or 1, and the battery level is in \<open>[0, 7]\<close>.
\<close>

theorem nbit_field_within_range:
  assumes "length (input_report s) = INPUT_REPORT_SIZE"
  shows "(\<forall>offset_byte offset_bit nbit.
            - 49 \<le> offset_byte \<and> offset_byte < 49 \<and> 0 \<le> offset_bit \<and> 0 \<le> nbit \<longrightarrow>
            (\<exists>v. get_nbit_from_input_report s offset_byte offset_bit nbit = Inr v
                 \<and> 0 \<le> v \<and> v \<le> 2 ^ nat nbit - 1))
       \<and> (\<forall>r \<in> set (get_status_buttons s). r = Inr 0 \<or> r = Inr 1)
       \<and> (get_battery_charging s = Inr 0 \<or> get_battery_charging s = Inr 1)
       \<and> (\<exists>v. get_battery_level s = Inr v \<and> 0 \<le> v \<and> v \<le> 7)"
proof (intro conjI allI impI)
  fix offset_byte offset_bit nbit :: int
  assume "- 49 \<le> offset_byte \<and> offset_byte < 49 \<and> 0 \<le> offset_bit \<and> 0 \<le> nbit"
  then show "\<exists>v. get_nbit_from_input_report s offset_byte offset_bit nbit = Inr v
                 \<and> 0 \<le> v \<and> v \<le> 2 ^ nat nbit - 1"
    using assms by (intro get_nbit_value) (simp_all add: INPUT_REPORT_SIZE_def)
next
  have b: "\<And>i j. 0 \<le> i \<Longrightarrow> i < 49 \<Longrightarrow> 0 \<le> j \<Longrightarrow>
     get_nbit_from_input_report s i j 1 = Inr 0 \<or> get_nbit_from_input_report s i j 1 = Inr 1"
    using assms by (rule one_bit_value)
  show "\<forall>r \<in> set (get_status_buttons s). r = Inr 0 \<or> r = Inr 1"
    unfolding get_status_buttons_def get_button_y_def get_button_x_def get_button_b_def
      get_button_a_def get_button_right_sr_def get_button_right_sl_def get_button_r_def
      get_button_zr_def get_button_minus_def get_button_plus_def get_button_r_stick_def
      get_button_l_stick_def get_button_home_def get_button_capture_def
      get_button_charging_grip_def get_button_down_def get_button_up_def get_button_right_def
      get_button_left_def get_button_left_sr_def get_button_left_sl_def get_button_l_def
      get_button_zl_def
    by (simp add: b)
  show "get_battery_charging s = Inr 0 \<or> get_battery_charging s = Inr 1"
    unfolding get_battery_charging_def by (simp add: b)
next
  show "\<exists>v. get_battery_level s = Inr v \<and> 0 \<le> v \<and> v \<le> 7"
    using get_nbit_value [of s 2 5 3] assms
    by (simp add: get_battery_level_def INPUT_REPORT_SIZE_def)
qed

theorem nbit_field_within_range_witness:
  "length (input_report (unconnected_joycon JOYCON_L_PRODUCT_ID)) = INPUT_REPORT_SIZE
   \<and> (\<exists>v. get_battery_level (unconnected_joycon JOYCON_L_PRODUCT_ID) = Inr v \<and> 0 \<le> v \<and> v \<le> 7)
   \<and> get_battery_level
        ((unconnected_joycon JOYCON_L_PRODUCT_ID)\<lparr>input_report := initial_input_report[2 := 0xB0]\<rparr>)
      = Inr 5"
proof -
  let ?s = "unconnected_joycon JOYCON_L_PRODUCT_ID"
  have len: "length (input_report ?s) = INPUT_REPORT_SIZE"
    by (simp add: unconnected_joycon_def initial_input_report_def)
  have "get_battery_level (?s\<lparr>input_report := initial_input_report[2 := 0xB0]\<rparr>) = Inr 5"
    by (simp add: get_battery_level_def get_nbit_from_input_report_def py_index_def
        initial_input_report_def INPUT_REPORT_SIZE_def)
  with len nbit_field_within_range [OF len] show ?thesis by simp
qed

text \<open>
  C5. For offsets and coefficient references that are signed 16-bit values (what the
  loader decodes, and the defaults), \<open>set_accel_calibration\<close> raises ZeroDivisionError
  exactly when the reference equals the offset on some axis (the axes are computed in
  the order X, Y, Z); otherwise every stored coefficient is
  \<open>4 / (raw_coeff - raw_offset)\<close>. The defaults \<open>(0, 0, 0)\<close> and \<open>(1, 1, 1)\<close> of \<open>__init__\<close>
  give the coefficient 4 on every axis.
\<close>

theorem accel_calibration_coefficients:
  assumes "\<forall>v \<in> set [ox, oy, oz, cx, cy, cz]. - 32768 \<le> v \<and> v \<le> 32767"
  shows "set_accel_calibration s (Some [ox, oy, oz]) (Some [cx, cy, cz]) =
     (let s1 = s\<lparr>ACCEL_OFFSET_X := ox, ACCEL_OFFSET_Y := oy, ACCEL_OFFSET_Z := oz\<rparr> in
      if cx = ox then (Raises ZeroDivisionError, s1)
      else if cy = oy then
        (Raises ZeroDivisionError, s1\<lparr>ACCEL_COEFF_X := 4 / real_of_int (cx - ox)\<rparr>)
      else if cz = oz then
        (Raises ZeroDivisionError,
         s1\<lparr>ACCEL_COEFF_X := 4 / real_of_int (cx - ox),
            ACCEL_COEFF_Y := 4 / real_of_int (cy - oy)\<rparr>)
      else
        (Returns (),
         s1\<lparr>ACCEL_COEFF_X := 4 / real_of_int (cx - ox),
            ACCEL_COEFF_Y := 4 / real_of_int (cy - oy),
            ACCEL_COEFF_Z := 4 / real_of_int (cz - oz)\<rparr>))
   \<and> (fst (set_accel_calibration s (Some [ox, oy, oz]) (Some [cx, cy, cz]))
          = Raises ZeroDivisionError) = (cx = ox \<or> cy = oy \<or> cz = oz)
   \<and> (fst (set_accel_calibration s (Some [ox, oy, oz]) (Some [cx, cy, cz])) = Returns ())
       = (cx \<noteq> ox \<and> cy \<noteq> oy \<and> cz \<noteq> oz)
   \<and> init_accel_calibration s =
       (Returns (),
        s\<lparr>ACCEL_OFFSET_X := 0, ACCEL_OFFSET_Y := 0, ACCEL_OFFSET_Z := 0,
          ACCEL_COEFF_X := 4, ACCEL_COEFF_Y := 4, ACCEL_COEFF_Z := 4\<rparr>)"
proof -
  have x: "one_over (cx - ox) = (if cx - ox = 0 then Inl ZeroDivisionError else Inr (1 / real_of_int (cx - ox)))"
    and y: "one_over (cy - oy) = (if cy - oy = 0 then Inl ZeroDivisionError else Inr (1 / real_of_int (cy - oy)))"
    and z: "one_over (cz - oz) = (if cz - oz = 0 then Inl ZeroDivisionError else Inr (1 / real_of_int (cz - oz)))"
    using assms by (simp_all add: one_over_int16_diff)
  have i: "one_over 1 = Inr 1"
    using one_over_int16_diff [of 1] by simp
  show ?thesis
    by (simp add: set_accel_calibration_def init_accel_calibration_def py_truthy_def
        x y z i Let_def)
qed

theorem accel_calibration_coefficients_witness:
  "set_accel_calibration (unconnected_joycon JOYCON_L_PRODUCT_ID)
      (Some [100, 0, - 100]) (Some [16484, 16384, 16284])
    = (Returns (),
       (unconnected_joycon JOYCON_L_PRODUCT_ID)
         \<lparr>ACCEL_OFFSET_X := 100, ACCEL_OFFSET_Y := 0, ACCEL_OFFSET_Z := - 100,
          ACCEL_COEFF_X := 1 / 4096, ACCEL_COEFF_Y := 1 / 4096, ACCEL_COEFF_Z := 1 / 4096\<rparr>)
   \<and> set_accel_calibration (unconnected_joycon JOYCON_L_PRODUCT_ID)
      (Some [1, 2, 3]) (Some [5, 2, 7])
    = (Raises ZeroDivisionError,
       (unconnected_joycon JOYCON_L_PRODUCT_ID)
         \<lparr>ACCEL_OFFSET_X := 1, ACCEL_OFFSET_Y := 2, ACCEL_OFFSET_Z := 3, ACCEL_COEFF_X := 1\<rparr>)"
proof -
  have a: "\<forall>v \<in> set [100, 0, - 100, 16484, 16384, 16284 :: int]. - 32768 \<le> v \<and> v \<le> 32767"
    and b: "\<forall>v \<in> set [1, 2, 3, 5, 2, 7 :: int]. - 32768 \<le> v \<and> v \<le> 32767"
    by simp_all
  show ?thesis
    using accel_calibration_coefficients [OF a, of "unconnected_joycon JOYCON_L_PRODUCT_ID"]
      accel_calibration_coefficients [OF b, of "unconnected_joycon JOYCON_L_PRODUCT_ID"]
    by simp
qed

text \<open>
  C9. When either argument of \<open>set_accel_calibration\<close> is \<open>None\<close> or an empty tuple, the
  call returns normally and leaves the object, its six accelerometer fields included,
  exactly as it was.
\<close>

theorem accel_calibration_falsy_noop:
  assumes "offset_xyz = None \<or> offset_xyz = Some [] \<or> coeff_xyz = None \<or> coeff_xyz = Some []"
  shows "set_accel_calibration s offset_xyz coeff_xyz = (Returns (), s)"
  using assms by (auto simp: set_accel_calibration_def py_truthy_def)

theorem accel_calibration_falsy_noop_witness:
  "set_accel_calibration (unconnected_joycon JOYCON_R_PRODUCT_ID) None (Some [1, 1, 1])
     = (Returns (), unconnected_joycon JOYCON_R_PRODUCT_ID)
   \<and> set_accel_calibration (unconnected_joycon JOYCON_R_PRODUCT_ID) (Some [5, 6, 7]) (Some [])
     = (Returns (), unconnected_joycon JOYCON_R_PRODUCT_ID)"
  using accel_calibration_falsy_noop [of None "Some [1, 1, 1]" "unconnected_joycon JOYCON_R_PRODUCT_ID"]
    accel_calibration_falsy_noop [of "Some [5, 6, 7]" "Some []" "unconnected_joycon JOYCON_R_PRODUCT_ID"]
  by simp

text \<open>
  C8 (amended). For a 49-byte report (passed, or the current one when none is passed) and
  a sample index in \<open>{0, 1, 2}\<close>, \<open>get_accel_y\<close> and \<open>get_accel_z\<close> return the signed 16-bit
  little-endian value at bytes \<open>13 + 12k + 2\<close> (Y) and \<open>13 + 12k + 4\<close> (Z) times the axis
  coefficient, negated exactly when the controller is not the left-side variant (so
  for the right-side and for the pro variant) and unnegated for the left side; every
  other sample index raises IndexError. The counterexample is the pro variant, whose Y
  value is negated although it is not the right-side variant.
\<close>

theorem accel_y_z_samples:
  "(length rep = INPUT_REPORT_SIZE
      \<and> (arg = Some rep \<or> arg = None \<and> input_report s = rep)
      \<and> (k = 0 \<or> k = 1 \<or> k = 2) \<longrightarrow>
      get_accel_y s arg k =
        Inr (real_of_int (sint (word_cat (rep ! nat (13 + 12 * k + 3)) (rep ! nat (13 + 12 * k + 2)) :: 16 word))
             * ACCEL_COEFF_Y s * (if is_left s then 1 else - 1))
      \<and> get_accel_z s arg k =
        Inr (real_of_int (sint (word_cat (rep ! nat (13 + 12 * k + 5)) (rep ! nat (13 + 12 * k + 4)) :: 16 word))
             * ACCEL_COEFF_Z s * (if is_left s then 1 else - 1)))
   \<and> (k \<noteq> 0 \<and> k \<noteq> 1 \<and> k \<noteq> 2 \<longrightarrow>
      get_accel_y s arg k = Inl IndexError \<and> get_accel_z s arg k = Inl IndexError)"
proof (intro conjI impI)
  assume h: "length rep = INPUT_REPORT_SIZE \<and> (arg = Some rep \<or> arg = None \<and> input_report s = rep)
      \<and> (k = 0 \<or> k = 1 \<or> k = 2)"
  then have r: "report_or_current s arg = rep"
    by (auto simp: report_or_current_def INPUT_REPORT_SIZE_def)
  have len: "int (length rep) = 49" and k: "0 \<le> k" "k \<le> 2"
    using h by (auto simp: INPUT_REPORT_SIZE_def)
  have y: "int16_at rep (15 + k * 12)
      = Inr (sint (word_cat (rep ! nat (15 + k * 12 + 1)) (rep ! nat (15 + k * 12)) :: 16 word))"
    using k len by (intro int16_at_value) simp_all
  have z: "int16_at rep (17 + k * 12)
      = Inr (sint (word_cat (rep ! nat (17 + k * 12 + 1)) (rep ! nat (17 + k * 12)) :: 16 word))"
    using k len by (intro int16_at_value) simp_all
  show "get_accel_y s arg k =
        Inr (real_of_int (sint (word_cat (rep ! nat (13 + 12 * k + 3)) (rep ! nat (13 + 12 * k + 2)) :: 16 word))
             * ACCEL_COEFF_Y s * (if is_left s then 1 else - 1))"
    using h by (simp add: get_accel_y_def r y Let_def algebra_simps)
  show "get_accel_z s arg k =
        Inr (real_of_int (sint (word_cat (rep ! nat (13 + 12 * k + 5)) (rep ! nat (13 + 12 * k + 4)) :: 16 word))
             * ACCEL_COEFF_Z s * (if is_left s then 1 else - 1))"
    using h by (simp add: get_accel_z_def r z Let_def algebra_simps)
next
  assume "k \<noteq> 0 \<and> k \<noteq> 1 \<and> k \<noteq> 2"
  then show "get_accel_y s arg k = Inl IndexError" "get_accel_z s arg k = Inl IndexError"
    by (simp_all add: get_accel_y_def get_accel_z_def Let_def)
qed

theorem accel_y_negated_for_pro_counterexample:
  "\<not> is_right (unconnected_joycon PRO_PRODUCT_ID)
   \<and> length (initial_input_report[15 := 1]) = INPUT_REPORT_SIZE
   \<and> real_of_int (sint (word_cat (initial_input_report[15 := 1] ! 16)
                                 (initial_input_report[15 := 1] ! 15) :: 16 word))
       * ACCEL_COEFF_Y (unconnected_joycon PRO_PRODUCT_ID) = 4
   \<and> get_accel_y (unconnected_joycon PRO_PRODUCT_ID) (Some (initial_input_report[15 := 1])) 0
       = Inr (- 4)"
  by (simp add: is_right_def is_left_def unconnected_joycon_def initial_input_report_def
      INPUT_REPORT_SIZE_def get_accel_y_def report_or_current_def int16_at_def py_index_def
      to_int16le_from_2bytes_def word_cat_eq')

theorem accel_y_z_samples_witness:
  "get_accel_y (unconnected_joycon JOYCON_R_PRODUCT_ID)
       (Some (initial_input_report[39 := 0xFE, 40 := 0xFF])) 2 = Inr 8
   \<and> get_accel_z (unconnected_joycon JOYCON_L_PRODUCT_ID)
       (Some (initial_input_report[17 := 3])) 0 = Inr 12
   \<and> get_accel_y (unconnected_joycon JOYCON_L_PRODUCT_ID) None 3 = Inl IndexError"
proof -
  let ?r = "initial_input_report[39 := 0xFE, 40 := 0xFF] :: byte list"
  let ?q = "initial_input_report[17 := 3] :: byte list"
  have s1: "sint (word_cat (255 :: byte) (254 :: byte) :: 16 word) = - 2"
    by (simp add: word_cat_eq')
  have s2: "sint (word_cat (0 :: byte) (3 :: byte) :: 16 word) = 3"
    by (simp add: word_cat_eq')
  have "get_accel_y (unconnected_joycon JOYCON_R_PRODUCT_ID) (Some ?r) 2 = Inr 8"
    using accel_y_z_samples [of ?r "Some ?r" "unconnected_joycon JOYCON_R_PRODUCT_ID" 2]
    by (simp add: initial_input_report_def INPUT_REPORT_SIZE_def unconnected_joycon_def
        is_left_def s1)
  moreover have "get_accel_z (unconnected_joycon JOYCON_L_PRODUCT_ID) (Some ?q) 0 = Inr 12"
    using accel_y_z_samples [of ?q "Some ?q" "unconnected_joycon JOYCON_L_PRODUCT_ID" 0]
    by (simp add: initial_input_report_def INPUT_REPORT_SIZE_def unconnected_joycon_def
        is_left_def s2)
  moreover have "get_accel_y (unconnected_joycon JOYCON_L_PRODUCT_ID) None 3 = Inl IndexError"
    using accel_y_z_samples [of "[]" None "unconnected_joycon JOYCON_L_PRODUCT_ID" 3]
    by simp
  ultimately show ?thesis by simp
qed

text \<open>
  C1 (amended). From a 9-byte block the loader stores the block's three 12-bit pairs,
  which its comments and the spec name max-above-center, center and min-below-center in
  block order, at indices 0,1 / 2,3 / 4,5 on the left side and at indices 2,3 / 4,5 /
  0,1 on every other side. Hence the slots \<open>get_actual_stick_value\<close> reads as center
  (\<open>2 + orientation\<close>), as divisor above (\<open>orientation\<close>) and as divisor below
  (\<open>4 + orientation\<close>) hold the center, max-above and min-below pair on the left side
  only; on the right side they hold the block's first pair (named max-above-center),
  its third pair (named min-below-center) and its second pair (named center). The
  counterexample is a right-side block whose pairs differ: the slot read as center
  holds the value named max-above-center.
\<close>

theorem stick_cal_placement:
  assumes "length buf = 9" and "orientation = 0 \<or> orientation = 1"
  shows "fst (store_stick_cal s buf) = Returns ()
     \<and> (is_left s \<longrightarrow>
          stick_cal (snd (store_stick_cal s buf))
            = max_above_center buf @ center_pair buf @ min_below_center buf
        \<and> py_index (stick_cal (snd (store_stick_cal s buf))) (2 + orientation)
            = Inr (center_pair buf ! nat orientation)
        \<and> py_index (stick_cal (snd (store_stick_cal s buf))) orientation
            = Inr (max_above_center buf ! nat orientation)
        \<and> py_index (stick_cal (snd (store_stick_cal s buf))) (4 + orientation)
            = Inr (min_below_center buf ! nat orientation))
     \<and> (\<not> is_left s \<longrightarrow>
          stick_cal (snd (store_stick_cal s buf))
            = min_below_center buf @ max_above_center buf @ center_pair buf
        \<and> py_index (stick_cal (snd (store_stick_cal s buf))) (2 + orientation)
            = Inr (max_above_center buf ! nat orientation)
        \<and> py_index (stick_cal (snd (store_stick_cal s buf))) orientation
            = Inr (min_below_center buf ! nat orientation)
        \<and> py_index (stick_cal (snd (store_stick_cal s buf))) (4 + orientation)
            = Inr (center_pair buf ! nat orientation))"
  using assms(2)
  by (auto simp: store_stick_cal_value [OF assms(1)] py_index_def
      max_above_center_def center_pair_def min_below_center_def)

theorem stick_cal_right_center_slot_counterexample:
  "is_right (unconnected_joycon JOYCON_R_PRODUCT_ID)
   \<and> max_above_center [1, 0, 0, 2, 0, 0, 3, 0, 0] = [1, 0]
   \<and> center_pair [1, 0, 0, 2, 0, 0, 3, 0, 0] = [2, 0]
   \<and> min_below_center [1, 0, 0, 2, 0, 0, 3, 0, 0] = [3, 0]
   \<and> stick_cal (snd (store_stick_cal (unconnected_joycon JOYCON_R_PRODUCT_ID)
                        [1, 0, 0, 2, 0, 0, 3, 0, 0])) = [3, 0, 1, 0, 2, 0]
   \<and> py_index (stick_cal (snd (store_stick_cal (unconnected_joycon JOYCON_R_PRODUCT_ID)
                        [1, 0, 0, 2, 0, 0, 3, 0, 0]))) (2 + 0) = Inr 1
   \<and> py_index (stick_cal (snd (store_stick_cal (unconnected_joycon JOYCON_R_PRODUCT_ID)
                        [1, 0, 0, 2, 0, 0, 3, 0, 0]))) (2 + 0)
       \<noteq> Inr (center_pair [1, 0, 0, 2, 0, 0, 3, 0, 0] ! 0)"
proof -
  have l: "length [1, 0, 0, 2, 0, 0, 3, 0, 0 :: byte] = 9"
    by simp
  have p: "max_above_center [1, 0, 0, 2, 0, 0, 3, 0, 0] = [1, 0]"
    "center_pair [1, 0, 0, 2, 0, 0, 3, 0, 0] = [2, 0]"
    "min_below_center [1, 0, 0, 2, 0, 0, 3, 0, 0] = [3, 0]"
    by (simp_all add: max_above_center_def center_pair_def min_below_center_def
        first12_def second12_def)
  show ?thesis
    by (simp add: store_stick_cal_value [OF l] p is_right_def is_left_def
        unconnected_joycon_def py_index_def)
qed

theorem stick_cal_placement_witness:
  "stick_cal (snd (store_stick_cal (unconnected_joycon JOYCON_L_PRODUCT_ID)
                     [1, 0, 0, 2, 0, 0, 3, 0, 0])) = [1, 0, 2, 0, 3, 0]
   \<and> stick_cal (snd (store_stick_cal (unconnected_joycon JOYCON_R_PRODUCT_ID)
                     [1, 0, 0, 2, 0, 0, 3, 0, 0])) = [3, 0, 1, 0, 2, 0]"
proof -
  have l: "length [1, 0, 0, 2, 0, 0, 3, 0, 0 :: byte] = 9"
    by simp
  have p: "max_above_center [1, 0, 0, 2, 0, 0, 3, 0, 0] = [1, 0]"
    "center_pair [1, 0, 0, 2, 0, 0, 3, 0, 0] = [2, 0]"
    "min_below_center [1, 0, 0, 2, 0, 0, 3, 0, 0] = [3, 0]"
    by (simp_all add: max_above_center_def center_pair_def min_below_center_def
        first12_def second12_def)
  have o: "(0::int) = 0 \<or> (0::int) = 1"
    by simp
  show ?thesis
    using stick_cal_placement [OF l o, of "unconnected_joycon JOYCON_L_PRODUCT_ID"]
      stick_cal_placement [OF l o, of "unconnected_joycon JOYCON_R_PRODUCT_ID"]
    by (simp add: p is_left_def unconnected_joycon_def)
qed

text \<open>
  C2 (amended). With six calibration slots and an orientation in \<open>{0, 1}\<close>, normalization
  returns exactly 0 when \<open>|pre_cal - center| < deadzone\<close> (the boundary is not in the zero
  region). Otherwise it divides \<open>pre_cal - center\<close> by \<open>max_above\<close> when \<open>pre_cal > center\<close>
  and by \<open>min_below\<close> when \<open>pre_cal \<le> center\<close>: a zero divisor raises ZeroDivisionError, a
  quotient of magnitude \<open>2^1024 - 2^970\<close> or more raises OverflowError, a quotient of
  magnitude at most \<open>2^-1075\<close> gives 0.0, and every other quotient is returned, its sign
  being the sign of \<open>pre_cal - center\<close> when the divisor is positive. The counterexample
  shows the three cases the claim leaves out: a loaded left-side calibration whose X
  max-above-center is 0, \<open>pre_cal = 2^2000\<close>, and a divisor of \<open>2^1100\<close> for which a
  positive difference gives 0.0.
\<close>

theorem stick_normalization:
  fixes s :: joycon and pre_cal orientation :: int
  defines "center \<equiv> stick_cal s ! nat (2 + orientation)"
    and "max_above \<equiv> stick_cal s ! nat orientation"
    and "min_below \<equiv> stick_cal s ! nat (4 + orientation)"
  defines "qa \<equiv> real_of_int (pre_cal - center) / real_of_int max_above"
    and "qb \<equiv> real_of_int (pre_cal - center) / real_of_int min_below"
  assumes "length (stick_cal s) = 6" and "orientation = 0 \<or> orientation = 1"
  shows "(\<bar>pre_cal - center\<bar> < deadzone s \<longrightarrow>
            get_actual_stick_value s pre_cal orientation = Inr 0)
       \<and> (deadzone s \<le> \<bar>pre_cal - center\<bar> \<and> center < pre_cal \<longrightarrow>
            (max_above = 0 \<longrightarrow>
               get_actual_stick_value s pre_cal orientation = Inl ZeroDivisionError)
          \<and> (max_above \<noteq> 0 \<and> float_overflow \<le> \<bar>qa\<bar> \<longrightarrow>
               get_actual_stick_value s pre_cal orientation = Inl OverflowError)
          \<and> (max_above \<noteq> 0 \<and> \<bar>qa\<bar> \<le> float_underflow \<longrightarrow>
               get_actual_stick_value s pre_cal orientation = Inr 0)
          \<and> (max_above \<noteq> 0 \<and> float_underflow < \<bar>qa\<bar> \<and> \<bar>qa\<bar> < float_overflow \<longrightarrow>
               get_actual_stick_value s pre_cal orientation = Inr qa
               \<and> (0 < max_above \<longrightarrow> sgn qa = sgn (real_of_int (pre_cal - center)))))
       \<and> (deadzone s \<le> \<bar>pre_cal - center\<bar> \<and> pre_cal \<le> center \<longrightarrow>
            (min_below = 0 \<longrightarrow>
               get_actual_stick_value s pre_cal orientation = Inl ZeroDivisionError)
          \<and> (min_below \<noteq> 0 \<and> float_overflow \<le> \<bar>qb\<bar> \<longrightarrow>
               get_actual_stick_value s pre_cal orientation = Inl OverflowError)
          \<and> (min_below \<noteq> 0 \<and> \<bar>qb\<bar> \<le> float_underflow \<longrightarrow>
               get_actual_stick_value s pre_cal orientation = Inr 0)
          \<and> (min_below \<noteq> 0 \<and> float_underflow < \<bar>qb\<bar> \<and> \<bar>qb\<bar> < float_overflow \<longrightarrow>
               get_actual_stick_value s pre_cal orientation = Inr qb
               \<and> (0 < min_below \<longrightarrow> sgn qb = sgn (real_of_int (pre_cal - center)))))"
proof -
  have c: "py_index (stick_cal s) (2 + orientation) = Inr center"
    and a: "py_index (stick_cal s) orientation = Inr max_above"
    and b: "py_index (stick_cal s) (4 + orientation) = Inr min_below"
    using stick_slots [OF assms(6,7)] by (simp_all add: center_def max_above_def min_below_def)
  have v: "get_actual_stick_value s pre_cal orientation =
      (if \<bar>pre_cal - center\<bar> < deadzone s then Inr 0
       else if pre_cal - center > 0 then int_truediv (pre_cal - center) max_above
       else int_truediv (pre_cal - center) min_below)"
    by (simp add: get_actual_stick_value_def a b c Let_def)
  have ta: "int_truediv (pre_cal - center) max_above =
      (if max_above = 0 then Inl ZeroDivisionError
       else if float_overflow \<le> \<bar>qa\<bar> then Inl OverflowError
       else if \<bar>qa\<bar> \<le> float_underflow then Inr 0 else Inr qa)"
    and tb: "int_truediv (pre_cal - center) min_below =
      (if min_below = 0 then Inl ZeroDivisionError
       else if float_overflow \<le> \<bar>qb\<bar> then Inl OverflowError
       else if \<bar>qb\<bar> \<le> float_underflow then Inr 0 else Inr qb)"
    by (simp_all add: int_truediv_def qa_def qb_def Let_def)
  have u: "float_underflow < float_overflow"
    by (simp add: float_underflow_def float_overflow_def)
  have sa: "0 < max_above \<Longrightarrow> sgn qa = sgn (real_of_int (pre_cal - center))"
    and sb: "0 < min_below \<Longrightarrow> sgn qb = sgn (real_of_int (pre_cal - center))"
    unfolding qa_def qb_def by (rule int_truediv_sgn; assumption)+
  show ?thesis
    unfolding v ta tb using u sa sb by auto
qed


theorem stick_normalization_zero_divisor_counterexample:
  "stick_cal ((snd (store_stick_cal (unconnected_joycon JOYCON_L_PRODUCT_ID)
                     [0x00, 0x00, 0x60, 0x00, 0x08, 0x80, 0x00, 0x05, 0x50]))\<lparr>deadzone := 174\<rparr>)
     = [0, 1536, 2048, 2048, 1280, 1280]
   \<and> \<not> \<bar>3000 - 2048\<bar> < (174::int) \<and> (2048::int) < 3000
   \<and> get_actual_stick_value
        ((snd (store_stick_cal (unconnected_joycon JOYCON_L_PRODUCT_ID)
                 [0x00, 0x00, 0x60, 0x00, 0x08, 0x80, 0x00, 0x05, 0x50]))\<lparr>deadzone := 174\<rparr>)
        3000 0 = Inl ZeroDivisionError
   \<and> get_actual_stick_value
        ((unconnected_joycon JOYCON_L_PRODUCT_ID)
           \<lparr>stick_cal := [1500, 1536, 2048, 2048, 1280, 1280], deadzone := 174\<rparr>)
        (2 ^ 2000) 0 = Inl OverflowError
   \<and> get_actual_stick_value
        ((unconnected_joycon JOYCON_L_PRODUCT_ID)
           \<lparr>stick_cal := [2 ^ 1100, 1, 0, 0, 1, 1], deadzone := 0\<rparr>)
        1 0 = Inr 0"
proof -
  have l: "length [0x00, 0x00, 0x60, 0x00, 0x08, 0x80, 0x00, 0x05, 0x50 :: byte] = 9"
    by simp
  have z: "stick_cal ((snd (store_stick_cal (unconnected_joycon JOYCON_L_PRODUCT_ID)
                     [0x00, 0x00, 0x60, 0x00, 0x08, 0x80, 0x00, 0x05, 0x50]))\<lparr>deadzone := 174\<rparr>)
     = [0, 1536, 2048, 2048, 1280, 1280]"
    by (simp add: store_stick_cal_value [OF l] is_left_def unconnected_joycon_def
        max_above_center_def center_pair_def min_below_center_def first12_def second12_def)
  have zd: "get_actual_stick_value
        ((snd (store_stick_cal (unconnected_joycon JOYCON_L_PRODUCT_ID)
                 [0x00, 0x00, 0x60, 0x00, 0x08, 0x80, 0x00, 0x05, 0x50]))\<lparr>deadzone := 174\<rparr>)
        3000 0 = Inl ZeroDivisionError"
    by (simp add: get_actual_stick_value_def z py_index_def int_truediv_def)
  have big: "float_overflow \<le> \<bar>real_of_int (2 ^ 2000 - 2048) / real_of_int 1500\<bar>"
  proof -
    have "(1500::real) * 2 ^ 1024 \<le> 2 ^ 11 * 2 ^ 1024"
      by simp
    also have "\<dots> \<le> 2 ^ 1999"
      by (simp flip: power_add)
    also have "\<dots> \<le> 2 ^ 2000 - 2048"
    proof -
      have "(2048::real) = 2 ^ 11" by simp
      also have "\<dots> \<le> 2 ^ 1999" by (rule power_increasing) simp_all
      finally have "(2::real) ^ 1999 + 2048 \<le> 2 ^ 1999 + 2 ^ 1999" by simp
      also have "\<dots> = 2 ^ 2000" by simp
      finally show ?thesis by simp
    qed
    finally have "(2::real) ^ 1024 \<le> (2 ^ 2000 - 2048) / 1500"
      by (simp add: pos_le_divide_eq mult.commute)
    moreover have "float_overflow \<le> 2 ^ 1024"
      by (simp add: float_overflow_def)
    ultimately show ?thesis by simp
  qed
  have ov: "get_actual_stick_value
        ((unconnected_joycon JOYCON_L_PRODUCT_ID)
           \<lparr>stick_cal := [1500, 1536, 2048, 2048, 1280, 1280], deadzone := 174\<rparr>)
        (2 ^ 2000) 0 = Inl OverflowError"
  proof -
    have g: "(4096::int) \<le> 2 ^ 2000"
    proof -
      have "(4096::int) = 2 ^ 12" by simp
      also have "\<dots> \<le> 2 ^ 2000" by (rule power_increasing) simp_all
      finally show ?thesis .
    qed
    then have "\<not> \<bar>2 ^ 2000 - 2048\<bar> < (174::int)" "(2048::int) < 2 ^ 2000"
      by linarith+
    then show ?thesis
      using big by (simp add: get_actual_stick_value_def py_index_def int_truediv_def Let_def)
  qed
  have small: "\<bar>real_of_int 1 / real_of_int (2 ^ 1100)\<bar> \<le> float_underflow"
  proof -
    have "(2::real) ^ 1075 \<le> 2 ^ 1100"
      by (rule power_increasing) simp_all
    then have "1 / (2::real) ^ 1100 \<le> 1 / 2 ^ 1075"
      by (simp add: frac_le)
    then show ?thesis
      by (simp add: float_underflow_def)
  qed
  have ovf: "\<not> float_overflow \<le> \<bar>real_of_int 1 / real_of_int (2 ^ 1100)\<bar>"
  proof -
    have "float_underflow < float_overflow"
      by (simp add: float_underflow_def float_overflow_def)
    with small show ?thesis by linarith
  qed
  have un: "get_actual_stick_value
        ((unconnected_joycon JOYCON_L_PRODUCT_ID)
           \<lparr>stick_cal := [2 ^ 1100, 1, 0, 0, 1, 1], deadzone := 0\<rparr>)
        1 0 = Inr 0"
    using small ovf
    by (simp add: get_actual_stick_value_def py_index_def int_truediv_def Let_def)
  from z zd ov un show ?thesis
    by simp
qed


theorem stick_normalization_witness:
  "get_actual_stick_value
     ((unconnected_joycon JOYCON_R_PRODUCT_ID)
        \<lparr>stick_cal := [1500, 1536, 2048, 2048, 1280, 1280], deadzone := 174\<rparr>) 2100 0 = Inr 0
   \<and> get_actual_stick_value
     ((unconnected_joycon JOYCON_R_PRODUCT_ID)
        \<lparr>stick_cal := [1500, 1536, 2048, 2048, 1280, 1280], deadzone := 174\<rparr>) 2798 0 = Inr (1 / 2)
   \<and> get_actual_stick_value
     ((unconnected_joycon JOYCON_R_PRODUCT_ID)
        \<lparr>stick_cal := [1500, 1536, 2048, 2048, 1280, 1280], deadzone := 174\<rparr>) 1408 1 = Inr (- 1 / 2)
   \<and> get_actual_stick_value
     ((unconnected_joycon JOYCON_R_PRODUCT_ID)
        \<lparr>stick_cal := [1500, 1536, 2048, 2048, 1280, 1280], deadzone := 174\<rparr>) 2222 0
       = Inr (174 / 1500)"
proof -
  let ?s = "(unconnected_joycon JOYCON_R_PRODUCT_ID)
        \<lparr>stick_cal := [1500, 1536, 2048, 2048, 1280, 1280], deadzone := 174\<rparr>"
  have r: "float_underflow < \<bar>1 / 2 :: real\<bar> \<and> \<bar>1 / 2 :: real\<bar> < float_overflow"
    "float_underflow < \<bar>29 / 250 :: real\<bar> \<and> \<bar>29 / 250 :: real\<bar> < float_overflow"
    by (rule float_range_ordinary; simp)+
  show ?thesis
    using stick_normalization [where s = ?s and pre_cal = 2100 and orientation = 0]
      stick_normalization [where s = ?s and pre_cal = 2798 and orientation = 0]
      stick_normalization [where s = ?s and pre_cal = 1408 and orientation = 1]
      stick_normalization [where s = ?s and pre_cal = 2222 and orientation = 0]
      r
    by simp
qed

text \<open>
  C3. \<open>_spi_flash_read\<close> with address \<open>a\<close> and size \<open>n\<close> rejects every \<open>n > 0x1D\<close>
  (AssertionError, nothing is sent). For a 32-bit address and \<open>0 \<le> n \<le> 0x1D\<close>, on an open
  device, it writes one frame carrying subcommand \<open>0x10\<close> and the argument (\<open>a\<close> as four
  little-endian bytes, then \<open>n\<close>). On the first \<open>0x21\<close> report that follows (49 bytes,
  payload from byte 13) it fails when the ack bit of byte 13 is clear, when the payload
  does not start with \<open>0x90, 0x10\<close>, and when the five payload bytes at offset 2 differ
  from the argument; when it returns, the result is exactly the \<open>n\<close> payload bytes from
  offset 7. (It also fails when byte 1 of the reply is \<open>0x10\<close>, by the assertion in
  \<open>_send_subcmd_get_response\<close>.)
\<close>

theorem spi_flash_read_contract:
  "(0x1D < n \<longrightarrow> spi_flash_read s a n = (Raises AssertionError, s))
   \<and> (joycon_device s = Some d \<and> 0 \<le> packet_number s \<and> packet_number s < 16
        \<and> 0 \<le> a \<and> a < 2 ^ 32 \<and> 0 \<le> n \<and> n \<le> 0x1D
        \<and> pending d = map Report pre @ Report reply # rest
        \<and> (\<forall>p \<in> set pre. p \<noteq> [] \<and> hd p \<noteq> 0x21)
        \<and> hd reply = 0x21 \<and> length reply = INPUT_REPORT_SIZE \<longrightarrow>
      joycon_device (snd (spi_flash_read s a n))
        = Some (d\<lparr>pending := rest, written := written d @
            [[0x01, word_of_int (packet_number s)] @ RUMBLE_DATA @ [0x10] @ request_argument a n]\<rparr>)
      \<and> fst (spi_flash_read s a n)
        = (if reply ! 1 = 0x10 then Raises AssertionError
           else if uint (reply ! 13) AND 0x80 = 0 then Raises OSError
           else if take 2 (drop 13 reply) \<noteq> [0x90, 0x10] then Raises OSError
           else if take 5 (drop 2 (drop 13 reply)) \<noteq> request_argument a n
             then Raises AssertionError
           else Returns (take (nat n) (drop 7 (drop 13 reply))))
      \<and> length (take (nat n) (drop 7 (drop 13 reply))) = nat n)"
proof (intro conjI impI)
  assume "0x1D < n"
  then show "spi_flash_read s a n = (Raises AssertionError, s)"
    by (simp add: spi_flash_read_def)
next
  assume h: "joycon_device s = Some d \<and> 0 \<le> packet_number s \<and> packet_number s < 16
        \<and> 0 \<le> a \<and> a < 2 ^ 32 \<and> 0 \<le> n \<and> n \<le> 0x1D
        \<and> pending d = map Report pre @ Report reply # rest
        \<and> (\<forall>p \<in> set pre. p \<noteq> [] \<and> hd p \<noteq> 0x21)
        \<and> hd reply = 0x21 \<and> length reply = INPUT_REPORT_SIZE"
  define arg where "arg = request_argument a n"
  define s1 where "s1 = s\<lparr>joycon_device := Some (d\<lparr>pending := rest, written := written d @
            [[0x01, word_of_int (packet_number s)] @ RUMBLE_DATA @ [0x10] @ arg]\<rparr>),
        packet_number := (packet_number s + 1) AND 0xF\<rparr>"
  define payload where "payload = drop 13 reply"
  define ack where "ack = uint (reply ! 13) AND 0x80"
  have ab: "to_bytes_little a 4 = Inr (take 4 arg)" "to_bytes_little n 1 = Inr (drop 4 arg)"
    using h request_argument_bytes [of a n] by (simp_all add: arg_def)
  have len: "length reply = 49"
    using h by (simp add: INPUT_REPORT_SIZE_def)
  have sr: "send_subcmd_get_response s [0x10] arg =
     (if reply ! 1 = 0x10 then Raises AssertionError else Returns (ack, payload), s1)"
    using h send_subcmd_reply [of s d pre reply rest "[0x10]" arg]
    by (simp add: s1_def payload_def ack_def)
  have sf: "spi_flash_read s a n =
     (case send_subcmd_get_response s [0x10] arg of
        (Returns (ack, report), s1) \<Rightarrow>
           if ack = 0 then (Raises OSError, s1)
           else if py_slice 0 2 report \<noteq> [0x90, 0x10] then (Raises OSError, s1)
           else if \<not> (py_slice 2 7 report = arg) then (Raises AssertionError, s1)
           else (Returns (py_slice 7 (nat n + 7) report), s1)
      | (Raises e, s1) \<Rightarrow> (Raises e, s1)
      | (Blocks, s1) \<Rightarrow> (Blocks, s1))"
    using h unfolding spi_flash_read_def ab by (simp add: Let_def)
  have res: "spi_flash_read s a n =
     (if reply ! 1 = 0x10 then Raises AssertionError
      else if ack = 0 then Raises OSError
      else if take 2 payload \<noteq> [0x90, 0x10] then Raises OSError
      else if take 5 (drop 2 payload) \<noteq> arg then Raises AssertionError
      else Returns (take (nat n) (drop 7 payload)), s1)"
    unfolding sf sr by (simp add: py_slice_def)
  show "joycon_device (snd (spi_flash_read s a n))
        = Some (d\<lparr>pending := rest, written := written d @
            [[0x01, word_of_int (packet_number s)] @ RUMBLE_DATA @ [0x10] @ request_argument a n]\<rparr>)"
    unfolding res by (simp add: s1_def arg_def)
  show "fst (spi_flash_read s a n)
        = (if reply ! 1 = 0x10 then Raises AssertionError
           else if uint (reply ! 13) AND 0x80 = 0 then Raises OSError
           else if take 2 (drop 13 reply) \<noteq> [0x90, 0x10] then Raises OSError
           else if take 5 (drop 2 (drop 13 reply)) \<noteq> request_argument a n
             then Raises AssertionError
           else Returns (take (nat n) (drop 7 (drop 13 reply))))"
    unfolding res by (simp add: ack_def payload_def arg_def)
  have "nat n \<le> 29"
    using h by (simp add: nat_le_iff)
  then show "length (take (nat n) (drop 7 (drop 13 reply))) = nat n"
    by (simp add: len)
qed

theorem spi_flash_read_contract_witness:
  "fst (spi_flash_read
     ((unconnected_joycon JOYCON_L_PRODUCT_ID)
        \<lparr>joycon_device := Some \<lparr>pending =
             [Report (0x30 # replicate 48 0),
              Report [0x21, 0x07, 0, 0, 0, 0, 0, 0, 0, 0, 0, 0, 0,
                      0x90, 0x10, 0x50, 0x60, 0x00, 0x00, 0x06,
                      0xA1, 0xA2, 0xA3, 0xA4, 0xA5, 0xA6,
                      0, 0, 0, 0, 0, 0, 0, 0, 0, 0, 0, 0, 0, 0, 0, 0, 0, 0, 0, 0, 0, 0, 0]],
           written = []\<rparr>\<rparr>) 0x6050 6)
   = Returns [0xA1, 0xA2, 0xA3, 0xA4, 0xA5, 0xA6]
   \<and> joycon_device (snd (spi_flash_read
     ((unconnected_joycon JOYCON_L_PRODUCT_ID)
        \<lparr>joycon_device := Some \<lparr>pending =
             [Report (0x30 # replicate 48 0),
              Report [0x21, 0x07, 0, 0, 0, 0, 0, 0, 0, 0, 0, 0, 0,
                      0x90, 0x10, 0x50, 0x60, 0x00, 0x00, 0x06,
                      0xA1, 0xA2, 0xA3, 0xA4, 0xA5, 0xA6,
                      0, 0, 0, 0, 0, 0, 0, 0, 0, 0, 0, 0, 0, 0, 0, 0, 0, 0, 0, 0, 0, 0, 0]],
           written = []\<rparr>\<rparr>) 0x6050 6))
   = Some \<lparr>pending = [],
        written = [[0x01, 0x00, 0x00, 0x01, 0x40, 0x40, 0x00, 0x01, 0x40, 0x40, 0x10,
                    0x50, 0x60, 0x00, 0x00, 0x06]]\<rparr>
   \<and> spi_flash_read (unconnected_joycon JOYCON_L_PRODUCT_ID) 0x6050 0x1E
   = (Raises AssertionError, unconnected_joycon JOYCON_L_PRODUCT_ID)"
proof -
  let ?reply = "[0x21, 0x07, 0, 0, 0, 0, 0, 0, 0, 0, 0, 0, 0,
                      0x90, 0x10, 0x50, 0x60, 0x00, 0x00, 0x06,
                      0xA1, 0xA2, 0xA3, 0xA4, 0xA5, 0xA6,
                      0, 0, 0, 0, 0, 0, 0, 0, 0, 0, 0, 0, 0, 0, 0, 0, 0, 0, 0, 0, 0, 0, 0] :: byte list"
  let ?d = "\<lparr>pending = [Report (0x30 # replicate 48 0), Report ?reply], written = []\<rparr>"
  let ?s = "(unconnected_joycon JOYCON_L_PRODUCT_ID)\<lparr>joycon_device := Some ?d\<rparr>"
  have arg: "request_argument 0x6050 6 = [0x50, 0x60, 0x00, 0x00, 0x06]"
    by (simp add: request_argument_def)
  have pn: "packet_number ?s = 0"
    by (simp add: unconnected_joycon_def)
  have a: "joycon_device (snd (spi_flash_read ?s 0x6050 6))
      = Some \<lparr>pending = [], written = [[0x01, 0x00, 0x00, 0x01, 0x40, 0x40, 0x00, 0x01, 0x40, 0x40,
                       0x10, 0x50, 0x60, 0x00, 0x00, 0x06]]\<rparr>"
    and b: "fst (spi_flash_read ?s 0x6050 6) = Returns [0xA1, 0xA2, 0xA3, 0xA4, 0xA5, 0xA6]"
    using spi_flash_read_contract [where s = ?s and a = "0x6050" and n = 6 and d = ?d
        and pre = "[0x30 # replicate 48 0]" and reply = ?reply and rest = "[]"]
    by (simp_all add: arg pn INPUT_REPORT_SIZE_def RUMBLE_DATA_def)
  have c: "spi_flash_read (unconnected_joycon JOYCON_L_PRODUCT_ID) 0x6050 0x1E
      = (Raises AssertionError, unconnected_joycon JOYCON_L_PRODUCT_ID)"
    using spi_flash_read_contract [where n = "0x1E" and a = "0x6050"
        and s = "unconnected_joycon JOYCON_L_PRODUCT_ID"]
    by simp
  from a b c show ?thesis
    by (intro conjI)
qed

text \<open>
  C6. On an open device whose reads deliver non-empty reports, for every sequence of
  read results. The subcommand waiter, having written its request, discards every
  report with a tag other than \<open>0x21\<close> and stops at the first of: a report tagged
  \<open>0x21\<close>, which alone decides what it returns and after which nothing more is read; a
  failing read, which it raises; the end of the sequence, where it blocks. It returns
  only data of a report tagged \<open>0x21\<close>. The discard loop of either reader has these three
  endings for its tag. The polling loop publishes and dispatches exactly the reports
  tagged \<open>0x30\<close> that arrive before the first failing read, in order, each to every hook,
  and ends normally when a read fails.
\<close>

theorem wrong_tag_never_accepted:
  assumes "joycon_device s = Some d" and "\<forall>p. Report p \<in> set (pending d) \<longrightarrow> p \<noteq> []"
  shows "(\<forall>ack data s'.
            send_subcmd_get_response s subcommand argument = (Returns (ack, data), s') \<longrightarrow>
            (\<exists>pre r rest. pending d = map Report pre @ Report r # rest
               \<and> (\<forall>p \<in> set pre. hd p \<noteq> 0x21) \<and> hd r = 0x21 \<and> data = drop 13 r))
       \<and> (0 \<le> packet_number s \<and> packet_number s < 16 \<longrightarrow>
            (\<forall>pre r rest. pending d = map Report pre @ Report r # rest
                \<and> (\<forall>p \<in> set pre. hd p \<noteq> 0x21) \<and> hd r = 0x21 \<longrightarrow>
                fst (send_subcmd_get_response s subcommand argument)
                  = (if py_slice 1 2 r = subcommand then Raises AssertionError
                     else case py_index r 13 of
                            Inl e \<Rightarrow> Raises e
                          | Inr b \<Rightarrow> Returns (uint b AND 0x80, drop 13 r))
                \<and> joycon_device (snd (send_subcmd_get_response s subcommand argument))
                  = Some (d\<lparr>pending := rest, written := written d @ [[0x01, word_of_int (packet_number s)] @ RUMBLE_DATA @ subcommand @ argument]\<rparr>))
          \<and> (\<forall>pre rest. pending d = map Report pre @ ReadFails # rest
                \<and> (\<forall>p \<in> set pre. hd p \<noteq> 0x21) \<longrightarrow>
                fst (send_subcmd_get_response s subcommand argument) = Raises OSError
                \<and> joycon_device (snd (send_subcmd_get_response s subcommand argument))
                  = Some (d\<lparr>pending := rest, written := written d @ [[0x01, word_of_int (packet_number s)] @ RUMBLE_DATA @ subcommand @ argument]\<rparr>))
          \<and> (\<forall>pre. pending d = map Report pre \<and> (\<forall>p \<in> set pre. hd p \<noteq> 0x21) \<longrightarrow>
                fst (send_subcmd_get_response s subcommand argument) = Blocks
                \<and> joycon_device (snd (send_subcmd_get_response s subcommand argument))
                  = Some (d\<lparr>pending := [], written := written d @ [[0x01, word_of_int (packet_number s)] @ RUMBLE_DATA @ subcommand @ argument]\<rparr>)))
       \<and> ((\<exists>pre r rest. pending d = map Report pre @ Report r # rest
              \<and> (\<forall>p \<in> set pre. hd p \<noteq> tag) \<and> hd r = tag
              \<and> read_until_tag s tag
                  = (Returns r, s\<lparr>joycon_device := Some (d\<lparr>pending := rest\<rparr>)\<rparr>))
          \<or> (\<exists>pre rest. pending d = map Report pre @ ReadFails # rest
              \<and> (\<forall>p \<in> set pre. hd p \<noteq> tag)
              \<and> read_until_tag s tag
                  = (Raises OSError, s\<lparr>joycon_device := Some (d\<lparr>pending := rest\<rparr>)\<rparr>))
          \<or> (\<exists>pre. pending d = map Report pre \<and> (\<forall>p \<in> set pre. hd p \<noteq> tag)
              \<and> read_until_tag s tag
                  = (Blocks, s\<lparr>joycon_device := Some (d\<lparr>pending := []\<rparr>)\<rparr>)))
       \<and> fst (update_input_report s)
           = (if ReadFails \<in> set (pending d) then Returns () else Blocks)
       \<and> observed (snd (update_input_report s))
           = observed s @ concat (map (observations_of (input_hooks s))
                                     (accepted_reports 0x30 (pending d)))
       \<and> input_report (snd (update_input_report s))
           = last (input_report s # accepted_reports 0x30 (pending d))
       \<and> (\<forall>r \<in> set (accepted_reports 0x30 (pending d)). hd r = 0x30)"
proof -
  have a: "\<forall>ack data s'.
            send_subcmd_get_response s subcommand argument = (Returns (ack, data), s') \<longrightarrow>
            (\<exists>pre r rest. pending d = map Report pre @ Report r # rest
               \<and> (\<forall>p \<in> set pre. hd p \<noteq> 0x21) \<and> hd r = 0x21 \<and> data = drop 13 r)"
    using assms send_subcmd_accepts by blast
  have b: "(0 \<le> packet_number s \<and> packet_number s < 16 \<longrightarrow>
            (\<forall>pre r rest. pending d = map Report pre @ Report r # rest
                \<and> (\<forall>p \<in> set pre. hd p \<noteq> 0x21) \<and> hd r = 0x21 \<longrightarrow>
                fst (send_subcmd_get_response s subcommand argument)
                  = (if py_slice 1 2 r = subcommand then Raises AssertionError
                     else case py_index r 13 of
                            Inl e \<Rightarrow> Raises e
                          | Inr b \<Rightarrow> Returns (uint b AND 0x80, drop 13 r))
                \<and> joycon_device (snd (send_subcmd_get_response s subcommand argument))
                  = Some (d\<lparr>pending := rest, written := written d @ [[0x01, word_of_int (packet_number s)] @ RUMBLE_DATA @ subcommand @ argument]\<rparr>))
          \<and> (\<forall>pre rest. pending d = map Report pre @ ReadFails # rest
                \<and> (\<forall>p \<in> set pre. hd p \<noteq> 0x21) \<longrightarrow>
                fst (send_subcmd_get_response s subcommand argument) = Raises OSError
                \<and> joycon_device (snd (send_subcmd_get_response s subcommand argument))
                  = Some (d\<lparr>pending := rest, written := written d @ [[0x01, word_of_int (packet_number s)] @ RUMBLE_DATA @ subcommand @ argument]\<rparr>))
          \<and> (\<forall>pre. pending d = map Report pre \<and> (\<forall>p \<in> set pre. hd p \<noteq> 0x21) \<longrightarrow>
                fst (send_subcmd_get_response s subcommand argument) = Blocks
                \<and> joycon_device (snd (send_subcmd_get_response s subcommand argument))
                  = Some (d\<lparr>pending := [], written := written d @ [[0x01, word_of_int (packet_number s)] @ RUMBLE_DATA @ subcommand @ argument]\<rparr>)))"
    using send_subcmd_waits [OF assms] by blast
  have c: "(\<exists>pre r rest. pending d = map Report pre @ Report r # rest
              \<and> (\<forall>p \<in> set pre. hd p \<noteq> tag) \<and> hd r = tag
              \<and> read_until_tag s tag
                  = (Returns r, s\<lparr>joycon_device := Some (d\<lparr>pending := rest\<rparr>)\<rparr>))
          \<or> (\<exists>pre rest. pending d = map Report pre @ ReadFails # rest
              \<and> (\<forall>p \<in> set pre. hd p \<noteq> tag)
              \<and> read_until_tag s tag
                  = (Raises OSError, s\<lparr>joycon_device := Some (d\<lparr>pending := rest\<rparr>)\<rparr>))
          \<or> (\<exists>pre. pending d = map Report pre \<and> (\<forall>p \<in> set pre. hd p \<noteq> tag)
              \<and> read_until_tag s tag
                  = (Blocks, s\<lparr>joycon_device := Some (d\<lparr>pending := []\<rparr>)\<rparr>))"
    using assms by (rule read_until_tag_cases)
  have e: "fst (update_input_report s)
           = (if ReadFails \<in> set (pending d) then Returns () else Blocks)"
    "observed (snd (update_input_report s))
           = observed s @ concat (map (observations_of (input_hooks s))
                                     (accepted_reports 0x30 (pending d)))"
    "input_report (snd (update_input_report s))
           = last (input_report s # accepted_reports 0x30 (pending d))"
    using update_input_report_effect [OF assms] by simp_all
  have f: "\<forall>r \<in> set (accepted_reports 0x30 (pending d)). hd r = 0x30"
    using accepted_reports_tag by blast
  from a b c e f show ?thesis
    by (intro conjI)
qed

theorem wrong_tag_never_accepted_witness:
  "fst (send_subcmd_get_response
     ((unconnected_joycon JOYCON_R_PRODUCT_ID)
        \<lparr>input_hooks := [7, 8],
         joycon_device := Some \<lparr>pending =
            [Report [0x30, 2], Report [0x3F, 3],
             Report (flash_reply 0x6050 [1, 2, 3, 4, 5, 6]), Report [0x30, 4],
             ReadFails, Report [0x30, 5]],
           written = []\<rparr>\<rparr>) [0x10] (request_argument 0x6050 6))
   = Returns (0x80, drop 13 (flash_reply 0x6050 [1, 2, 3, 4, 5, 6]))
   \<and> joycon_device (snd (send_subcmd_get_response
     ((unconnected_joycon JOYCON_R_PRODUCT_ID)
        \<lparr>input_hooks := [7, 8],
         joycon_device := Some \<lparr>pending =
            [Report [0x30, 2], Report [0x3F, 3],
             Report (flash_reply 0x6050 [1, 2, 3, 4, 5, 6]), Report [0x30, 4],
             ReadFails, Report [0x30, 5]],
           written = []\<rparr>\<rparr>) [0x10] (request_argument 0x6050 6)))
   = Some \<lparr>pending = [Report [0x30, 4], ReadFails, Report [0x30, 5]],
        written = [[0x01, 0x00, 0x00, 0x01, 0x40, 0x40, 0x00, 0x01, 0x40, 0x40, 0x10,
                    0x50, 0x60, 0x00, 0x00, 0x06]]\<rparr>
   \<and> fst (send_subcmd_get_response
     ((unconnected_joycon JOYCON_R_PRODUCT_ID)
        \<lparr>joycon_device := Some \<lparr>pending = [Report [0x30, 2], ReadFails, Report [0x21, 9]],
           written = []\<rparr>\<rparr>) [0x10] (request_argument 0x6050 6))
   = Raises OSError
   \<and> fst (send_subcmd_get_response
     ((unconnected_joycon JOYCON_R_PRODUCT_ID)
        \<lparr>joycon_device := Some \<lparr>pending = [Report [0x30, 2], Report [0x3F, 3]],
           written = []\<rparr>\<rparr>) [0x10] (request_argument 0x6050 6))
   = Blocks
   \<and> observed (snd (update_input_report
     ((unconnected_joycon JOYCON_R_PRODUCT_ID)
        \<lparr>input_hooks := [7, 8],
         joycon_device := Some \<lparr>pending =
            [Report [0x30, 2], Report [0x3F, 3],
             Report (flash_reply 0x6050 [1, 2, 3, 4, 5, 6]), Report [0x30, 4],
             ReadFails, Report [0x30, 5]],
           written = []\<rparr>\<rparr>)))
   = [Published [0x30, 2], Dispatched 7 [0x30, 2], Dispatched 8 [0x30, 2],
      Published [0x30, 4], Dispatched 7 [0x30, 4], Dispatched 8 [0x30, 4]]
   \<and> fst (update_input_report
     ((unconnected_joycon JOYCON_R_PRODUCT_ID)
        \<lparr>input_hooks := [7, 8],
         joycon_device := Some \<lparr>pending =
            [Report [0x30, 2], Report [0x3F, 3],
             Report (flash_reply 0x6050 [1, 2, 3, 4, 5, 6]), Report [0x30, 4],
             ReadFails, Report [0x30, 5]],
           written = []\<rparr>\<rparr>)) = Returns ()"
proof -
  let ?r = "flash_reply 0x6050 [1, 2, 3, 4, 5, 6]"
  let ?arg = "request_argument 0x6050 6"
  let ?rest = "[Report [0x30, 4], ReadFails, Report [0x30, 5 :: byte]]"
  let ?d = "\<lparr>pending = [Report [0x30, 2], Report [0x3F, 3], Report ?r, Report [0x30, 4],
             ReadFails, Report [0x30, 5]], written = []\<rparr>"
  let ?s = "(unconnected_joycon JOYCON_R_PRODUCT_ID)
        \<lparr>input_hooks := [7, 8], joycon_device := Some ?d\<rparr>"
  let ?d2 = "\<lparr>pending = [Report [0x30, 2], ReadFails, Report [0x21, 9 :: byte]], written = []\<rparr>"
  let ?s2 = "(unconnected_joycon JOYCON_R_PRODUCT_ID)\<lparr>joycon_device := Some ?d2\<rparr>"
  let ?d3 = "\<lparr>pending = [Report [0x30, 2], Report [0x3F, 3 :: byte]], written = []\<rparr>"
  let ?s3 = "(unconnected_joycon JOYCON_R_PRODUCT_ID)\<lparr>joycon_device := Some ?d3\<rparr>"
  have fr: "?r = [0x21, 0, 0, 0, 0, 0, 0, 0, 0, 0, 0, 0, 0,
                  0x90, 0x10, 0x50, 0x60, 0x00, 0x00, 0x06, 1, 2, 3, 4, 5, 6,
                  0, 0, 0, 0, 0, 0, 0, 0, 0, 0, 0, 0, 0, 0, 0, 0, 0, 0, 0, 0, 0, 0, 0]"
    by code_simp
  have arg: "?arg = [0x50, 0x60, 0x00, 0x00, 0x06]"
    by (simp add: request_argument_def)
  have d: "joycon_device ?s = Some ?d" "joycon_device ?s2 = Some ?d2" "joycon_device ?s3 = Some ?d3"
    by simp_all
  have ne: "\<forall>p. Report p \<in> set (pending ?d) \<longrightarrow> p \<noteq> []"
    "\<forall>p. Report p \<in> set (pending ?d2) \<longrightarrow> p \<noteq> []"
    "\<forall>p. Report p \<in> set (pending ?d3) \<longrightarrow> p \<noteq> []"
    by (auto simp: fr)
  have pn: "0 \<le> packet_number ?s \<and> packet_number ?s < 16"
    "0 \<le> packet_number ?s2 \<and> packet_number ?s2 < 16"
    "0 \<le> packet_number ?s3 \<and> packet_number ?s3 < 16"
    by (simp_all add: unconnected_joycon_def)
  note t1 = wrong_tag_never_accepted [OF d(1) ne(1), of "[0x10]" ?arg]
  note t2 = wrong_tag_never_accepted [OF d(2) ne(2), of "[0x10]" ?arg]
  note t3 = wrong_tag_never_accepted [OF d(3) ne(3), of "[0x10]" ?arg]
  note w1 = t1 [THEN conjunct2, THEN conjunct1, THEN mp, OF pn(1), THEN conjunct1,
      rule_format, of "[[0x30, 2], [0x3F, 3]]" ?r ?rest]
  note w2 = t2 [THEN conjunct2, THEN conjunct1, THEN mp, OF pn(2), THEN conjunct2, THEN conjunct1,
      rule_format, of "[[0x30, 2]]" "[Report [0x21, 9]]"]
  note w3 = t3 [THEN conjunct2, THEN conjunct1, THEN mp, OF pn(3), THEN conjunct2, THEN conjunct2,
      rule_format, of "[[0x30, 2], [0x3F, 3]]"]
  have a: "fst (send_subcmd_get_response ?s [0x10] ?arg) = Returns (0x80, drop 13 ?r)"
    and b: "joycon_device (snd (send_subcmd_get_response ?s [0x10] ?arg))
      = Some \<lparr>pending = ?rest,
        written = [[0x01, 0x00, 0x00, 0x01, 0x40, 0x40, 0x00, 0x01, 0x40, 0x40, 0x10,
                    0x50, 0x60, 0x00, 0x00, 0x06]]\<rparr>"
    using w1 by (simp_all add: fr arg py_slice_def py_index_def RUMBLE_DATA_def
        unconnected_joycon_def)
  have c: "fst (send_subcmd_get_response ?s2 [0x10] ?arg) = Raises OSError"
    using w2 by simp
  have e: "fst (send_subcmd_get_response ?s3 [0x10] ?arg) = Blocks"
    using w3 by simp
  have f: "observed (snd (update_input_report ?s))
      = [Published [0x30, 2], Dispatched 7 [0x30, 2], Dispatched 8 [0x30, 2],
         Published [0x30, 4], Dispatched 7 [0x30, 4], Dispatched 8 [0x30, 4]]"
    and g: "fst (update_input_report ?s) = Returns ()"
    using t1 by (simp_all add: observations_of_def unconnected_joycon_def fr)
  from a b c e f g show ?thesis
    by (intro conjI)
qed

text \<open>
  C4. For either side's addresses (user block at \<open>0x8012\<close> left, \<open>0x801D\<close> otherwise;
  factory block at \<open>0x603D\<close> left, \<open>0x6046\<close> otherwise): when the 9-byte user block read
  from flash is all \<open>0xFF\<close>, the calibration is parsed from the 9-byte factory block read
  next at the factory address; when some user byte differs from \<open>0xFF\<close>, it is parsed from
  the user block and the device is left as the user read left it, so the factory block
  is not read.
\<close>

theorem stick_calibration_source:
  assumes "spi_flash_read s (if is_left s then 0x8012 else 0x801D) 9 = (Returns user_buf, s1)"
    and "length user_buf = 9"
  shows "((\<forall>b \<in> set user_buf. b = 0xFF)
            \<and> spi_flash_read s1 (if is_left s then 0x603D else 0x6046) 9 = (Returns factory_buf, s2)
            \<and> length factory_buf = 9 \<longrightarrow>
          read_stick_calibration_data s = store_stick_cal s2 factory_buf
          \<and> fst (read_stick_calibration_data s) = Returns ()
          \<and> stick_cal (snd (read_stick_calibration_data s))
              = (if is_left s
                 then max_above_center factory_buf @ center_pair factory_buf
                      @ min_below_center factory_buf
                 else min_below_center factory_buf @ max_above_center factory_buf
                      @ center_pair factory_buf))
       \<and> ((\<exists>b \<in> set user_buf. b \<noteq> 0xFF) \<longrightarrow>
          read_stick_calibration_data s = store_stick_cal s1 user_buf
          \<and> fst (read_stick_calibration_data s) = Returns ()
          \<and> stick_cal (snd (read_stick_calibration_data s))
              = (if is_left s
                 then max_above_center user_buf @ center_pair user_buf @ min_below_center user_buf
                 else min_below_center user_buf @ max_above_center user_buf @ center_pair user_buf)
          \<and> joycon_device (snd (read_stick_calibration_data s)) = joycon_device s1)"
proof (intro conjI impI)
  have l1: "is_left s1 = is_left s"
    using spi_flash_read_product [of s "if is_left s then 0x8012 else 0x801D" 9] assms(1)
    by (simp add: is_left_def)
  {
    assume h: "(\<forall>b \<in> set user_buf. b = 0xFF)
            \<and> spi_flash_read s1 (if is_left s then 0x603D else 0x6046) 9 = (Returns factory_buf, s2)
            \<and> length factory_buf = 9"
    then have l2: "is_left s2 = is_left s"
      using spi_flash_read_product [of s1 "if is_left s then 0x603D else 0x6046" 9] l1
      by (simp add: is_left_def)
    have nu: "\<not> use_user_data user_buf"
      using h by (simp add: use_user_data_iff)
    show e: "read_stick_calibration_data s = store_stick_cal s2 factory_buf"
      using assms(1) h nu l1 by (simp add: read_stick_calibration_data_def Let_def)
    show "fst (read_stick_calibration_data s) = Returns ()"
      using h by (simp add: e store_stick_cal_value)
    show "stick_cal (snd (read_stick_calibration_data s))
              = (if is_left s
                 then max_above_center factory_buf @ center_pair factory_buf
                      @ min_below_center factory_buf
                 else min_below_center factory_buf @ max_above_center factory_buf
                      @ center_pair factory_buf)"
      using h l2 by (simp add: e store_stick_cal_value)
  }
  {
    assume h: "\<exists>b \<in> set user_buf. b \<noteq> 0xFF"
    then have u: "use_user_data user_buf"
      by (simp add: use_user_data_iff)
    show e: "read_stick_calibration_data s = store_stick_cal s1 user_buf"
      using assms(1) u by (simp add: read_stick_calibration_data_def Let_def)
    show "fst (read_stick_calibration_data s) = Returns ()"
      using assms(2) by (simp add: e store_stick_cal_value)
    show "stick_cal (snd (read_stick_calibration_data s))
              = (if is_left s
                 then max_above_center user_buf @ center_pair user_buf @ min_below_center user_buf
                 else min_below_center user_buf @ max_above_center user_buf @ center_pair user_buf)"
      using assms(2) l1 by (simp add: e store_stick_cal_value)
    show "joycon_device (snd (read_stick_calibration_data s)) = joycon_device s1"
      using assms(2) by (simp add: e store_stick_cal_value)
  }
qed


theorem stick_calibration_source_witness:
  "stick_cal (snd (read_stick_calibration_data
     ((unconnected_joycon JOYCON_L_PRODUCT_ID)
        \<lparr>joycon_device := Some \<lparr>pending =
            [Report (flash_reply 0x8012 [0xFF, 0xFF, 0xFF, 0xFF, 0xFF, 0xFF, 0xFF, 0xFF, 0xFF]),
             Report (flash_reply 0x603D [0x00, 0x06, 0x60, 0x00, 0x08, 0x80, 0x00, 0x05, 0x50])],
           written = []\<rparr>\<rparr>)))
     = [1536, 1536, 2048, 2048, 1280, 1280]
   \<and> stick_cal (snd (read_stick_calibration_data
     ((unconnected_joycon JOYCON_R_PRODUCT_ID)
        \<lparr>joycon_device := Some \<lparr>pending =
            [Report (flash_reply 0x801D [0x01, 0x00, 0x00, 0x02, 0x00, 0x00, 0x03, 0x00, 0x00]),
             Report (flash_reply 0x6046 [0x00, 0x06, 0x60, 0x00, 0x08, 0x80, 0x00, 0x05, 0x50])],
           written = []\<rparr>\<rparr>)))
     = [3, 0, 1, 0, 2, 0]
   \<and> joycon_device (snd (read_stick_calibration_data
     ((unconnected_joycon JOYCON_R_PRODUCT_ID)
        \<lparr>joycon_device := Some \<lparr>pending =
            [Report (flash_reply 0x801D [0x01, 0x00, 0x00, 0x02, 0x00, 0x00, 0x03, 0x00, 0x00]),
             Report (flash_reply 0x6046 [0x00, 0x06, 0x60, 0x00, 0x08, 0x80, 0x00, 0x05, 0x50])],
           written = []\<rparr>\<rparr>)))
     = Some \<lparr>pending =
            [Report (flash_reply 0x6046 [0x00, 0x06, 0x60, 0x00, 0x08, 0x80, 0x00, 0x05, 0x50])],
          written = [[0x01, 0x00, 0x00, 0x01, 0x40, 0x40, 0x00, 0x01, 0x40, 0x40, 0x10,
                      0x1D, 0x80, 0x00, 0x00, 0x09]]\<rparr>"
proof -
  let ?ff = "[0xFF, 0xFF, 0xFF, 0xFF, 0xFF, 0xFF, 0xFF, 0xFF, 0xFF] :: byte list"
  let ?fd = "[0x00, 0x06, 0x60, 0x00, 0x08, 0x80, 0x00, 0x05, 0x50] :: byte list"
  let ?ud = "[0x01, 0x00, 0x00, 0x02, 0x00, 0x00, 0x03, 0x00, 0x00] :: byte list"
  let ?sl = "(unconnected_joycon JOYCON_L_PRODUCT_ID)
        \<lparr>joycon_device := Some \<lparr>pending =
            [Report (flash_reply 0x8012 ?ff), Report (flash_reply 0x603D ?fd)], written = []\<rparr>\<rparr>"
  let ?sr = "(unconnected_joycon JOYCON_R_PRODUCT_ID)
        \<lparr>joycon_device := Some \<lparr>pending =
            [Report (flash_reply 0x801D ?ud), Report (flash_reply 0x6046 ?fd)], written = []\<rparr>\<rparr>"
  have il: "is_left ?sl" and ir: "\<not> is_left ?sr"
    by (simp_all add: is_left_def unconnected_joycon_def)
  have "fst (spi_flash_read ?sl 0x8012 9) = Returns ?ff"
    by code_simp
  then have ul: "spi_flash_read ?sl (if is_left ?sl then 0x8012 else 0x801D) 9
      = (Returns ?ff, snd (spi_flash_read ?sl 0x8012 9))"
    using il by (simp add: prod_eq_iff)
  have "fst (spi_flash_read (snd (spi_flash_read ?sl 0x8012 9)) 0x603D 9) = Returns ?fd"
    by code_simp
  then have fl: "spi_flash_read (snd (spi_flash_read ?sl 0x8012 9))
        (if is_left ?sl then 0x603D else 0x6046) 9
      = (Returns ?fd, snd (spi_flash_read (snd (spi_flash_read ?sl 0x8012 9)) 0x603D 9))"
    using il by (simp add: prod_eq_iff)
  have "fst (spi_flash_read ?sr 0x801D 9) = Returns ?ud"
    by code_simp
  then have ur: "spi_flash_read ?sr (if is_left ?sr then 0x8012 else 0x801D) 9
      = (Returns ?ud, snd (spi_flash_read ?sr 0x801D 9))"
    using ir by (simp add: prod_eq_iff)
  have dr: "joycon_device (snd (spi_flash_read ?sr 0x801D 9))
      = Some \<lparr>pending = [Report (flash_reply 0x6046 ?fd)],
          written = [[0x01, 0x00, 0x00, 0x01, 0x40, 0x40, 0x00, 0x01, 0x40, 0x40, 0x10,
                      0x1D, 0x80, 0x00, 0x00, 0x09]]\<rparr>"
    by code_simp
  have vals: "max_above_center ?fd = [1536, 1536]" "center_pair ?fd = [2048, 2048]"
    "min_below_center ?fd = [1280, 1280]"
    "max_above_center ?ud = [1, 0]" "center_pair ?ud = [2, 0]" "min_below_center ?ud = [3, 0]"
    by (simp_all add: max_above_center_def center_pair_def min_below_center_def
        first12_def second12_def)
  have l9: "length ?ff = 9" "length ?ud = 9"
    by simp_all
  have t: "(\<forall>b \<in> set ?ff. b = 0xFF)
      \<and> spi_flash_read (snd (spi_flash_read ?sl 0x8012 9)) (if is_left ?sl then 0x603D else 0x6046) 9
          = (Returns ?fd, snd (spi_flash_read (snd (spi_flash_read ?sl 0x8012 9)) 0x603D 9))
      \<and> length ?fd = 9"
    using fl by simp
  have "stick_cal (snd (read_stick_calibration_data ?sl))
      = (if is_left ?sl then max_above_center ?fd @ center_pair ?fd @ min_below_center ?fd
         else min_below_center ?fd @ max_above_center ?fd @ center_pair ?fd)"
    using stick_calibration_source [OF ul l9(1), THEN conjunct1, THEN mp, OF t] by blast
  then have a: "stick_cal (snd (read_stick_calibration_data ?sl))
      = [1536, 1536, 2048, 2048, 1280, 1280]"
    using il by (simp only: vals if_True append.simps)
  have u: "\<exists>b \<in> set ?ud. b \<noteq> 0xFF"
    by simp
  have "stick_cal (snd (read_stick_calibration_data ?sr))
      = (if is_left ?sr then max_above_center ?ud @ center_pair ?ud @ min_below_center ?ud
         else min_below_center ?ud @ max_above_center ?ud @ center_pair ?ud)"
    and c: "joycon_device (snd (read_stick_calibration_data ?sr))
      = joycon_device (snd (spi_flash_read ?sr 0x801D 9))"
    using stick_calibration_source [OF ur l9(2), THEN conjunct2, THEN mp, OF u] by blast+
  then have b: "stick_cal (snd (read_stick_calibration_data ?sr)) = [3, 0, 1, 0, 2, 0]"
    using ir by (simp only: vals if_False append.simps)
  from a b c dr show ?thesis
    by (simp only: simp_thms)
qed

end
